theory Spec2Isabelle
  imports Main "HOL-Library.AList" "HOL-Library.Multiset"
begin

section \<open>JavaScript values\<close>

text \<open>
  The values that cross the boundaries of the pre-rendering code are untyped
  (\<^verbatim>\<open>unknown\<close> in the TypeScript source): the return value of a
  \<^verbatim>\<open>prerender()\<close> hook, the exports of a page file, the content of the build manifest.
  An object is an association list of its own enumerable keys, in insertion order.
  \<open>JObj\<close> is a plain object (its constructor is \<^verbatim>\<open>Object\<close>); \<open>JInst c\<close> is any
  other object (a class instance, a module namespace), tagged with a name.
  Numbers are integers here; \<^verbatim>\<open>NaN\<close> and fractions are not represented.
\<close>

datatype jsval =
    JUndefined
  | JNull
  | JBool bool
  | JNum int
  | JStr string
  | JFun string
  | JArr "jsval list"
  | JObj "(string \<times> jsval) list"
  | JInst string "(string \<times> jsval) list"

type_synonym jsobj = "(string \<times> jsval) list"

fun typeof :: "jsval \<Rightarrow> string" where
  "typeof JUndefined = ''undefined''"
| "typeof JNull = ''object''"
| "typeof (JBool b) = ''boolean''"
| "typeof (JNum n) = ''number''"
| "typeof (JStr s) = ''string''"
| "typeof (JFun f) = ''function''"
| "typeof (JArr xs) = ''object''"
| "typeof (JObj kvs) = ''object''"
| "typeof (JInst c kvs) = ''object''"

text \<open>Truthiness, as \<^verbatim>\<open>if (v)\<close> and \<^verbatim>\<open>a || b\<close> test it.\<close>

fun truthy :: "jsval \<Rightarrow> bool" where
  "truthy JUndefined = False"
| "truthy JNull = False"
| "truthy (JBool b) = b"
| "truthy (JNum n) = (n \<noteq> 0)"
| "truthy (JStr s) = (s \<noteq> [])"
| "truthy (JFun f) = True"
| "truthy (JArr xs) = True"
| "truthy (JObj kvs) = True"
| "truthy (JInst c kvs) = True"

text \<open>\<^verbatim>\<open>a || b\<close>\<close>

definition js_or :: "jsval \<Rightarrow> jsval \<Rightarrow> jsval" where
  "js_or a b = (if truthy a then a else b)"

text \<open>The keys of an object; a value that is no object has none.\<close>

fun own_fields :: "jsval \<Rightarrow> jsobj" where
  "own_fields (JObj kvs) = kvs"
| "own_fields (JInst c kvs) = kvs"
| "own_fields v = []"

text \<open>\<^verbatim>\<open>Object.keys(v)\<close>\<close>

definition object_keys :: "jsval \<Rightarrow> string list" where
  "object_keys v = map fst (own_fields v)"

text \<open>\<^verbatim>\<open>v.k\<close> on an object: \<^verbatim>\<open>undefined\<close> for a key that is absent.\<close>

definition getProp :: "jsval \<Rightarrow> string \<Rightarrow> jsval" where
  "getProp v k = (case map_of (own_fields v) k of None \<Rightarrow> JUndefined | Some x \<Rightarrow> x)"

text \<open>\<^verbatim>\<open>k in v\<close>, for \<open>v\<close> an object.\<close>

definition js_in :: "string \<Rightarrow> jsval \<Rightarrow> bool" where
  "js_in k v = (k \<in> set (object_keys v))"

text \<open>
  Modelled from the spec: \<^verbatim>\<open>isPlainObject\<close> and \<^verbatim>\<open>hasProp\<close> are helpers of
  \<^verbatim>\<open>./utils\<close>, which is not among the sources. A value is a plain object when it is an
  object literal (neither \<^verbatim>\<open>null\<close>, nor an array, nor a class instance), and an object
  has a property when the key is among its keys.
\<close>

fun isPlainObject :: "jsval \<Rightarrow> bool" where
  "isPlainObject (JObj kvs) = True"
| "isPlainObject v = False"

definition hasProp :: "jsval \<Rightarrow> string \<Rightarrow> bool" where
  "hasProp v k = (typeof v = ''object'' \<and> v \<noteq> JNull \<and> js_in k v)"

text \<open>\<^verbatim>\<open>s.startsWith(p)\<close>\<close>

definition startsWith :: "string \<Rightarrow> string \<Rightarrow> bool" where
  "startsWith s p = (take (length p) s = p)"

text \<open>
  \<^verbatim>\<open>{ ...a, ...b }\<close>: the keys of \<open>a\<close> in their order, each key of \<open>b\<close> overriding
  the value in place or appended at the end.
\<close>

definition spread :: "jsobj \<Rightarrow> jsobj \<Rightarrow> jsobj" where
  "spread a b = fold (\<lambda>kv acc. AList.update (fst kv) (snd kv) acc) b a"

section \<open>Errors\<close>

text \<open>
  \<^verbatim>\<open>assertUsage\<close> throws a usage error with the given message; \<^verbatim>\<open>assert\<close> throws
  an internal error; \<open>Thrown\<close> is whatever a collaborator outside these sources
  (a user hook, the renderer, the file system) throws.
\<close>

datatype error =
    UsageError string
  | InternalError
  | TypeError
  | Thrown string

definition assertUsage :: "bool \<Rightarrow> string \<Rightarrow> error + unit" where
  "assertUsage c msg = (if c then Inr () else Inl (UsageError msg))"

definition assert :: "bool \<Rightarrow> error + unit" where
  "assert c = (if c then Inr () else Inl InternalError)"

section \<open>The browser side: \<^verbatim>\<open>getPageById\<close>\<close>

record pageFile =
  filePath :: string
  loadFile :: "error + jsval"

definition pageExportMsg :: "string \<Rightarrow> string" where
  "pageExportMsg fp = fp @ '' should have a `export { Page }` (or a default export).''"

text \<open>
  \<^verbatim>\<open>getPageFile('.page', pageId)\<close> is the page-file registry, a parameter here.
  \<^verbatim>\<open>'Page' in fileExports\<close> on \<^verbatim>\<open>null\<close> is a \<^verbatim>\<open>TypeError\<close> of the language.
\<close>

definition getPageById :: "(string \<Rightarrow> string \<Rightarrow> pageFile option) \<Rightarrow> string \<Rightarrow> error + jsval" where
  "getPageById getPageFile pageId =
     (case getPageFile ''.page'' pageId of
        None \<Rightarrow> Inl InternalError
      | Some pf \<Rightarrow>
          (case loadFile pf of
             Inl e \<Rightarrow> Inl e
           | Inr fileExports \<Rightarrow>
               if typeof fileExports = ''object'' \<and> fileExports = JNull then Inl TypeError
               else if \<not> (typeof fileExports = ''object'' \<and>
                           (js_in ''Page'' fileExports \<or> js_in ''default'' fileExports))
               then Inl (UsageError (pageExportMsg (filePath pf)))
               else Inr (js_or (getProp fileExports ''Page'') (getProp fileExports ''default''))))"

section \<open>Normalising what a \<^verbatim>\<open>prerender()\<close> hook returns\<close>

text \<open>
  A normalised entry is \<^verbatim>\<open>{ url, pageContext }\<close> with \<^verbatim>\<open>pageContext\<close> either
  \<^verbatim>\<open>null\<close> (\<open>None\<close>) or a plain object.
\<close>

type_synonym entry = "string \<times> jsobj option"

definition errMsg1 :: "string \<Rightarrow> string" where
  "errMsg1 prerenderSourceFile =
     ''The `prerender()` hook defined in `'' @ prerenderSourceFile @ ''` returned an invalid value''"

definition errMsg2 :: string where
  "errMsg2 = ''Make sure your `prerender()` hook returns an object `{ url, pageContext }` or an array of such objects.''"

definition invalidPageContextMsg :: "string \<Rightarrow> string" where
  "invalidPageContextMsg prerenderSourceFile =
     ''The `prerender()` hook exported by '' @ prerenderSourceFile @
     '' returned an invalid `pageContext` value: make sure `pageContext` is a plain JavaScript object.''"

text \<open>
  The \<^verbatim>\<open>forEach\<close> over \<^verbatim>\<open>Object.keys\<close>: the first key that is neither \<^verbatim>\<open>url\<close>
  nor \<^verbatim>\<open>pageContext\<close> raises.
\<close>

fun checkKeys :: "string \<Rightarrow> string list \<Rightarrow> error + unit" where
  "checkKeys prerenderSourceFile [] = Inr ()"
| "checkKeys prerenderSourceFile (key # keys) =
     (if key = ''url'' \<or> key = ''pageContext'' then checkKeys prerenderSourceFile keys
      else Inl (UsageError (errMsg1 prerenderSourceFile @ '': unexpected object key `'' @ key @
                            ''` '' @ errMsg2)))"

text \<open>
  \<^verbatim>\<open>normalize\<close>, the inner function of \<^verbatim>\<open>normalizePrerenderResult\<close> (named
  \<open>normalizeElement\<close> here), in three parts: the element as a whole, the checks once
  \<^verbatim>\<open>url\<close> has been read, and the \<^verbatim>\<open>pageContext\<close> of the object that is returned
  (\<^verbatim>\<open>null\<close> is \<open>None\<close>).
\<close>

fun pageContextOf :: "jsval \<Rightarrow> jsobj option" where
  "pageContextOf (JObj pageContext) = Some pageContext"
| "pageContextOf v = None"

definition withPageContext :: "jsval \<Rightarrow> jsval" where
  "withPageContext prerenderElement =
     (if \<not> hasProp prerenderElement ''pageContext''
      then JObj (spread (own_fields prerenderElement) [(''pageContext'', JNull)])
      else prerenderElement)"

fun normalizeUrl :: "string \<Rightarrow> jsval \<Rightarrow> jsval \<Rightarrow> error + entry" where
  "normalizeUrl prerenderSourceFile prerenderElement (JStr url) =
     (if \<not> startsWith url ''/''
      then Inl (UsageError (errMsg1 prerenderSourceFile @ '': the `url` with value `'' @ url @
                  ''` doesn't start with `/`. Make sure each URL starts with `/`.''))
      else
        (case checkKeys prerenderSourceFile (object_keys prerenderElement) of
           Inl e \<Rightarrow> Inl e
         | Inr _ \<Rightarrow>
             if hasProp (withPageContext prerenderElement) ''pageContext'' \<and>
                (getProp (withPageContext prerenderElement) ''pageContext'' = JNull \<or>
                 isPlainObject (getProp (withPageContext prerenderElement) ''pageContext''))
             then Inr (url, pageContextOf (getProp (withPageContext prerenderElement) ''pageContext''))
             else Inl (UsageError (invalidPageContextMsg prerenderSourceFile))))"
| "normalizeUrl prerenderSourceFile prerenderElement v =
     Inl (UsageError (errMsg1 prerenderSourceFile @ '': unexpected `url` of type `'' @
                      typeof v @ ''`.''))"

fun normalizeElement :: "string \<Rightarrow> jsval \<Rightarrow> error + entry" where
  "normalizeElement prerenderSourceFile (JStr s) = Inr (s, None)"
| "normalizeElement prerenderSourceFile prerenderElement =
     (if \<not> isPlainObject prerenderElement
      then Inl (UsageError (errMsg1 prerenderSourceFile @ ''. '' @ errMsg2))
      else if \<not> hasProp prerenderElement ''url''
      then Inl (UsageError (errMsg1 prerenderSourceFile @ '': `url` is missing. '' @ errMsg2))
      else normalizeUrl prerenderSourceFile prerenderElement (getProp prerenderElement ''url''))"

text \<open>\<^verbatim>\<open>xs.map(f)\<close> for an \<open>f\<close> that may throw: the first exception ends the map.\<close>

fun mapE :: "('a \<Rightarrow> error + 'b) \<Rightarrow> 'a list \<Rightarrow> error + 'b list" where
  "mapE f [] = Inr []"
| "mapE f (x # xs) =
     (case f x of
        Inl e \<Rightarrow> Inl e
      | Inr y \<Rightarrow> (case mapE f xs of Inl e \<Rightarrow> Inl e | Inr ys \<Rightarrow> Inr (y # ys)))"

definition normalizePrerenderResult :: "jsval \<Rightarrow> string \<Rightarrow> error + entry list" where
  "normalizePrerenderResult prerenderResult prerenderSourceFile =
     (case prerenderResult of
        JArr elements \<Rightarrow> mapE (normalizeElement prerenderSourceFile) elements
      | _ \<Rightarrow> mapE (normalizeElement prerenderSourceFile) [prerenderResult])"

text \<open>
  The shapes the hook contract allows, in the words of the spec: a bare string; a plain
  object with a string \<^verbatim>\<open>url\<close> that starts with \<^verbatim>\<open>/\<close>, no key other than \<^verbatim>\<open>url\<close>
  and \<^verbatim>\<open>pageContext\<close>, and a \<^verbatim>\<open>pageContext\<close> that is absent, \<^verbatim>\<open>null\<close> or a plain
  object; or an array of these.
\<close>

definition validUrl :: "jsobj \<Rightarrow> bool" where
  "validUrl kvs = (case map_of kvs ''url'' of Some (JStr url) \<Rightarrow> startsWith url ''/'' | _ \<Rightarrow> False)"

definition validPageContext :: "jsobj \<Rightarrow> bool" where
  "validPageContext kvs =
     (case map_of kvs ''pageContext'' of
        None \<Rightarrow> True | Some JNull \<Rightarrow> True | Some (JObj pc) \<Rightarrow> True | Some _ \<Rightarrow> False)"

definition validElement :: "jsval \<Rightarrow> bool" where
  "validElement v =
     (case v of
        JStr s \<Rightarrow> True
      | JObj kvs \<Rightarrow>
          validUrl kvs \<and> list_all (\<lambda>k. k = ''url'' \<or> k = ''pageContext'') (map fst kvs) \<and>
          validPageContext kvs
      | _ \<Rightarrow> False)"

definition validPrerenderResult :: "jsval \<Rightarrow> bool" where
  "validPrerenderResult v = (case v of JArr elements \<Rightarrow> list_all validElement elements | _ \<Rightarrow> validElement v)"

section \<open>Effects of a pre-rendering run\<close>

text \<open>
  A run either throws or returns, and leaves a trace of the effects it had, in order.
  Only the effects that the properties below speak about are recorded: the global
  environment being set, the page registry being read, a \<^verbatim>\<open>prerender()\<close> hook being
  called, the renderer being called (with its arguments), a warning, and the calls to
  the file system. \<^verbatim>\<open>console.log\<close> is left out.
\<close>

datatype event =
    SetNodeEnv string
  | SetSsrEnv bool string string
  | GetPageIds
  | LoadPageRoutes
  | HookCalled string string
  | PrerenderPageCalled string jsobj string bool bool
  | RenderStatic404PageCalled
  | Warning string
  | Mkdir string
  | WriteFile string string

type_synonym 'a run = "(error + 'a) \<times> event list"

definition succeed :: "'a \<Rightarrow> 'a run" where
  "succeed x = (Inr x, [])"

definition failWith :: "error \<Rightarrow> 'a run" where
  "failWith e = (Inl e, [])"

definition emit :: "event \<Rightarrow> unit run" where
  "emit ev = (Inr (), [ev])"

definition lift :: "error + 'a \<Rightarrow> 'a run" where
  "lift r = (r, [])"

text \<open>Sequencing: an exception ends the run, the trace so far is kept.\<close>

definition andThen :: "'a run \<Rightarrow> ('a \<Rightarrow> 'b run) \<Rightarrow> 'b run" where
  "andThen m f =
     (case fst m of
        Inl e \<Rightarrow> (Inl e, snd m)
      | Inr x \<Rightarrow> (fst (f x), snd m @ snd (f x)))"

text \<open>A call to a collaborator: the call is recorded, then it returns or throws.\<close>

definition call :: "event \<Rightarrow> error + 'a \<Rightarrow> 'a run" where
  "call ev r = andThen (emit ev) (\<lambda>_. lift r)"

definition assertWarning :: "bool \<Rightarrow> string \<Rightarrow> unit run" where
  "assertWarning c msg = (if c then succeed () else emit (Warning msg))"

text \<open>
  A loop over a list that threads a value through a body that may throw: \<open>foldE\<close>
  for a body without effects (\<^verbatim>\<open>forEach\<close>), \<open>forEachRun\<close> for
  \<^verbatim>\<open>for (const x of xs) { await f(x) }\<close>, where the first exception ends the loop.
\<close>

fun foldE :: "('a \<Rightarrow> 's \<Rightarrow> error + 's) \<Rightarrow> 'a list \<Rightarrow> 's \<Rightarrow> error + 's" where
  "foldE f [] s = Inr s"
| "foldE f (x # xs) s = (case f x s of Inl e \<Rightarrow> Inl e | Inr s' \<Rightarrow> foldE f xs s')"

fun forEachRun :: "('a \<Rightarrow> 's \<Rightarrow> 's run) \<Rightarrow> 'a list \<Rightarrow> 's \<Rightarrow> 's run" where
  "forEachRun f [] s = succeed s"
| "forEachRun f (x # xs) s = andThen (f x s) (forEachRun f xs)"

text \<open>
  \<^verbatim>\<open>await Promise.all(xs.map(async (x) => { ... }))\<close> starts one task per element. A
  task changes the shared variables only in its last, synchronous part, so what the
  tasks leave behind is what they would leave when run one after the other in the
  order in which they settle; that order is the order of the list given to
  \<open>promiseAll\<close>. The first task to throw rejects the whole, and the tasks that settle
  after it still run: their calls are in the trace, what they return is dropped. The
  trace lists the calls task by task, in the order of settling.
\<close>

fun promiseAll :: "('a \<Rightarrow> 's \<Rightarrow> 's run) \<Rightarrow> 'a list \<Rightarrow> 's \<Rightarrow> 's run" where
  "promiseAll f [] s = succeed s"
| "promiseAll f (x # xs) s =
     (case fst (f x s) of
        Inr s' \<Rightarrow> (fst (promiseAll f xs s'), snd (f x s) @ snd (promiseAll f xs s'))
      | Inl e \<Rightarrow> (Inl e, snd (f x s) @ snd (promiseAll f xs s)))"


section \<open>What the pre-rendering is given\<close>

text \<open>
  The modules that \<^verbatim>\<open>prerender\<close> imports are not among the sources; what they
  return is a parameter of the model. A page's route is a route string or a route
  function. A page's \<^verbatim>\<open>prerenderFunction\<close> is the path of the file that defines the
  hook, and what calling the hook returns or throws.
\<close>

datatype pageRoute = RouteString string | RouteFunction string

type_synonym prerenderFunction = "string \<times> (error + jsval)"

record world =
  package_version :: string
  cwd :: string
  moduleExists :: "string \<Rightarrow> bool"
  require :: "string \<Rightarrow> jsval"
  getPageIds :: "error + string list"
  isErrorPage :: "string \<Rightarrow> bool"
  loadPageRoutes :: "error + (string \<Rightarrow> pageRoute option)"
  getPageFunctions :: "string \<Rightarrow> error + prerenderFunction option"
  route :: "string \<Rightarrow> string list \<Rightarrow> jsobj \<Rightarrow> error + (string \<times> jsobj) option"
  prerenderPage :: "string \<Rightarrow> jsobj \<Rightarrow> string \<Rightarrow> bool \<Rightarrow> bool \<Rightarrow> error + (string \<times> string option)"
  renderStatic404Page :: "error + string option"
  getFilesystemRoute :: "string \<Rightarrow> string list \<Rightarrow> string"
  isStaticRoute :: "string \<Rightarrow> bool"
  getFileUrl :: "string \<Rightarrow> string \<Rightarrow> bool \<Rightarrow> string"
  sep :: string
  path_join :: "string list \<Rightarrow> string"
  dirname :: "string \<Rightarrow> string"
  mkdir :: "string \<Rightarrow> error + unit"
  writeFile :: "string \<Rightarrow> string \<Rightarrow> error + unit"

text \<open>
  Modelled from the spec: \<^verbatim>\<open>getFileUrl\<close> of \<^verbatim>\<open>./utils\<close> is not among the sources.
  For the URL \<^verbatim>\<open>/x/y\<close> the document is at \<^verbatim>\<open>/x/y/index.html\<close>, or at \<^verbatim>\<open>/x/y.html\<close>
  when \<^verbatim>\<open>doNotCreateExtraDirectory\<close> is set; the sidecar is at the same place with
  the extension \<^verbatim>\<open>.pageContext.json\<close>.
\<close>

definition getFileUrl_layout :: "string \<Rightarrow> string \<Rightarrow> bool \<Rightarrow> string" where
  "getFileUrl_layout url fileExtension doNotCreateExtraDirectory =
     (if doNotCreateExtraDirectory then url @ fileExtension else url @ ''/index'' @ fileExtension)"

section \<open>The build manifest\<close>

record PluginManifest =
  version :: string
  base :: string
  doesClientSideRouting :: bool

definition getPluginManifest :: "world \<Rightarrow> string \<Rightarrow> error + (PluginManifest option \<times> string)" where
  "getPluginManifest w root =
     (let pluginManifestPath = root @ ''/dist/client/vite-plugin-ssr.json'' in
      if \<not> moduleExists w pluginManifestPath then Inr (None, pluginManifestPath)
      else
        let manifestContent = require w pluginManifestPath in
        if \<not> hasProp manifestContent ''version'' then Inl InternalError
        else if \<not> hasProp manifestContent ''base'' then Inl InternalError
        else if \<not> hasProp manifestContent ''doesClientSideRouting'' then Inl InternalError
        else
          (case getProp manifestContent ''doesClientSideRouting'' of
             JBool doesClientSideRouting' \<Rightarrow>
               (case getProp manifestContent ''base'' of
                  JStr base' \<Rightarrow>
                    Inr (Some \<lparr>version = package_version w, base = base',
                               doesClientSideRouting = doesClientSideRouting'\<rparr>,
                         pluginManifestPath)
                | _ \<Rightarrow> Inl InternalError)
           | _ \<Rightarrow> Inl InternalError))"

definition manifestMissingMsg :: "string \<Rightarrow> string" where
  "manifestMissingMsg pluginManifestPath =
     ''You are trying to run `$ vite-plugin-ssr prerender` but you didn't build your app yet: make sure to run `$ vite build && vite build --ssr` before running the pre-rendering. (Following build manifest is missing: `''
     @ pluginManifestPath @ ''`.)''"

definition versionMismatchMsg :: "string \<Rightarrow> string \<Rightarrow> string" where
  "versionMismatchMsg running built =
     ''Remove `dist/` and re-build your app `$ vite build && vite build --ssr && vite-plugin-ssr prerender`. (You are using `vite-plugin-ssr@''
     @ running @ ''` but your build has been generated with a different version `vite-plugin-ssr@''
     @ built @ ''`.)''"

definition assertArguments :: "jsval \<Rightarrow> jsval \<Rightarrow> jsval \<Rightarrow> unit run" where
  "assertArguments partial clientRouter base_option =
     andThen (lift (assertUsage (partial = JBool True \<or> partial = JBool False)
                ''[prerender()] Option `partial` should be a boolean.'')) (\<lambda>_.
     andThen (assertWarning (clientRouter = JBool False)
                ''[prerender()] Option `clientRouter` is deprecated and has no-effect.'') (\<lambda>_.
     assertWarning (base_option = JUndefined)
                ''[prerender()] Option `base` is deprecated and has no-effect.''))"

text \<open>
  The start of \<^verbatim>\<open>prerender\<close>, up to the call of \<^verbatim>\<open>setSsrEnv\<close>: the arguments, the
  build manifest and its version, the global environment.
\<close>

definition prerenderSetup :: "world \<Rightarrow> jsval \<Rightarrow> string \<Rightarrow> jsval \<Rightarrow> jsval \<Rightarrow> PluginManifest run" where
  "prerenderSetup w partial root clientRouter base_option =
     andThen (assertArguments partial clientRouter base_option) (\<lambda>_.
     andThen (lift (getPluginManifest w root)) (\<lambda>manifest.
       case fst manifest of
         None \<Rightarrow> failWith (UsageError (manifestMissingMsg (snd manifest)))
       | Some pluginManifest \<Rightarrow>
           andThen (lift (assertUsage (version pluginManifest = package_version w)
                      (versionMismatchMsg (package_version w) (version pluginManifest)))) (\<lambda>_.
           andThen (emit (SetNodeEnv ''production'')) (\<lambda>_.
           andThen (emit (SetSsrEnv True root (base pluginManifest))) (\<lambda>_.
             succeed pluginManifest)))))"

section \<open>Collecting the URLs of the \<^verbatim>\<open>prerender()\<close> hooks\<close>

record prerenderDatum =
  prerenderSourceFile :: string
  pageContext :: jsobj
  noPrenderPageContext :: bool

text \<open>
  \<^verbatim>\<open>prerenderData\<close> is an object keyed by URL: an association list in insertion order,
  where assigning to a key that is there keeps its place.
\<close>

type_synonym prerenderData = "(string \<times> prerenderDatum) list"

text \<open>
  The body of \<^verbatim>\<open>result.forEach\<close>. The test of the source is
  \<^verbatim>\<open>!('url' in prerenderData)\<close>, with the string \<^verbatim>\<open>'url'\<close>. Reading a field of
  \<^verbatim>\<open>prerenderData[url]\<close> when there is no such key is a \<^verbatim>\<open>TypeError\<close>.
\<close>

definition addEntry :: "string \<Rightarrow> entry \<Rightarrow> prerenderData \<Rightarrow> error + prerenderData" where
  "addEntry sourceFile en prerenderData =
     (if \<not> startsWith (fst en) ''/'' then Inl InternalError
      else
        let prerenderData' =
              (if \<not> (''url'' \<in> fst ` set prerenderData)
               then AList.update (fst en)
                      \<lparr>prerenderSourceFile = sourceFile, pageContext = [],
                       noPrenderPageContext = True\<rparr> prerenderData
               else prerenderData)
        in case snd en of
             None \<Rightarrow> Inr prerenderData'
           | Some pc \<Rightarrow>
               (case map_of prerenderData' (fst en) of
                  None \<Rightarrow> Inl TypeError
                | Some d \<Rightarrow>
                    Inr (AList.update (fst en)
                           (d\<lparr>noPrenderPageContext := False,
                              pageContext := spread (pageContext d) pc\<rparr>) prerenderData')))"

text \<open>
  The task of one page: its hook, if it has one, is called once, and its entries are
  added when the hook has returned.
\<close>

definition prerenderHookTask :: "world \<Rightarrow> string \<Rightarrow> prerenderData \<Rightarrow> prerenderData run" where
  "prerenderHookTask w pageId prerenderData =
     andThen (lift (getPageFunctions w pageId)) (\<lambda>prerenderFunction.
       case prerenderFunction of
         None \<Rightarrow> succeed prerenderData
       | Some hook \<Rightarrow>
           andThen (call (HookCalled pageId (fst hook)) (snd hook)) (\<lambda>prerenderResult.
           andThen (lift (normalizePrerenderResult prerenderResult (fst hook))) (\<lambda>result.
             lift (foldE (addEntry (fst hook)) result prerenderData))))"

text \<open>The pages are given in the order in which their tasks settle.\<close>

definition collectPrerenderData :: "world \<Rightarrow> string list \<Rightarrow> prerenderData run" where
  "collectPrerenderData w allPageIds = promiseAll (prerenderHookTask w) allPageIds []"

section \<open>Rendering\<close>

record HtmlDocument =
  url :: string
  htmlDocument :: string
  pageContextSerialized :: "string option"
  doNotCreateExtraDirectory :: bool

definition routeMismatchMsg :: "string \<Rightarrow> string \<Rightarrow> string" where
  "routeMismatchMsg sourceFile u =
     ''The `prerender()` hook defined in `'' @ sourceFile @ '' returns an URL `'' @ u @
     ''` that doesn't match any page route. Make sure the URLs returned by `prerender()` hooks to always match the URL of a page.''"

text \<open>The task of one URL of \<^verbatim>\<open>prerenderData\<close>.\<close>

definition prerenderUrlTask ::
  "world \<Rightarrow> string list \<Rightarrow> bool \<Rightarrow> string \<times> prerenderDatum \<Rightarrow>
   HtmlDocument list \<times> string list \<Rightarrow> (HtmlDocument list \<times> string list) run" where
  "prerenderUrlTask w allPageIds pageContextNeeded item acc =
     andThen (lift (route w (fst item) allPageIds (pageContext (snd item)))) (\<lambda>routeResult.
       case routeResult of
         None \<Rightarrow>
           failWith (UsageError (routeMismatchMsg (prerenderSourceFile (snd item)) (fst item)))
       | Some matched \<Rightarrow>
           andThen (call (PrerenderPageCalled (fst matched)
                            (spread (pageContext (snd item)) (snd matched)) (fst item)
                            (\<not> noPrenderPageContext (snd item)) pageContextNeeded)
                         (prerenderPage w (fst matched)
                            (spread (pageContext (snd item)) (snd matched)) (fst item)
                            (\<not> noPrenderPageContext (snd item)) pageContextNeeded)) (\<lambda>rendered.
             succeed (fst acc @ [\<lparr>url = fst item, htmlDocument = fst rendered,
                                   pageContextSerialized = snd rendered,
                                   doNotCreateExtraDirectory = False\<rparr>],
                      snd acc @ [fst matched])))"

text \<open>The entries of \<^verbatim>\<open>prerenderData\<close> are given in the order in which their tasks settle.\<close>

definition renderPrerenderData ::
  "world \<Rightarrow> string list \<Rightarrow> bool \<Rightarrow> prerenderData \<Rightarrow> (HtmlDocument list \<times> string list) run" where
  "renderPrerenderData w allPageIds pageContextNeeded prerenderData =
     promiseAll (prerenderUrlTask w allPageIds pageContextNeeded) prerenderData ([], [])"

definition nonStaticRouteMsg :: "string \<Rightarrow> string" where
  "nonStaticRouteMsg pageId =
     ''Cannot pre-render page `'' @ pageId @
     ''.page.*` because it has a non-static route and no `prerender()` hook returned (an) URL(s) matching the page's route. Use the --partial option to suppress this warning.''"

text \<open>
  The URL at which a page without hook URL is rendered: \<open>None\<close> is the early
  \<^verbatim>\<open>return\<close> after the warning.
\<close>

definition staticUrl ::
  "world \<Rightarrow> bool \<Rightarrow> string list \<Rightarrow> (string \<Rightarrow> pageRoute option) \<Rightarrow> string \<Rightarrow> string option run" where
  "staticUrl w partial allPageIds pageRoutes pageId =
     (case pageRoutes pageId of
        None \<Rightarrow>
          andThen (lift (assert (startsWith (getFilesystemRoute w pageId allPageIds) ''/''))) (\<lambda>_.
            succeed (Some (getFilesystemRoute w pageId allPageIds)))
      | Some (RouteString pageRoute) \<Rightarrow>
          if isStaticRoute w pageRoute
          then andThen (lift (assert (startsWith pageRoute ''/''))) (\<lambda>_. succeed (Some pageRoute))
          else andThen (assertWarning partial (nonStaticRouteMsg pageId)) (\<lambda>_. succeed None)
      | Some (RouteFunction f) \<Rightarrow>
          andThen (assertWarning partial (nonStaticRouteMsg pageId)) (\<lambda>_. succeed None))"

definition staticRouteTask ::
  "world \<Rightarrow> bool \<Rightarrow> string list \<Rightarrow> (string \<Rightarrow> pageRoute option) \<Rightarrow> bool \<Rightarrow> string \<Rightarrow>
   HtmlDocument list \<Rightarrow> HtmlDocument list run" where
  "staticRouteTask w partial allPageIds pageRoutes pageContextNeeded pageId htmlDocuments =
     andThen (staticUrl w partial allPageIds pageRoutes pageId) (\<lambda>static.
       case static of
         None \<Rightarrow> succeed htmlDocuments
       | Some u \<Rightarrow>
           andThen (call (PrerenderPageCalled pageId [(''routeParams'', JObj [])] u False
                            pageContextNeeded)
                         (prerenderPage w pageId [(''routeParams'', JObj [])] u False
                            pageContextNeeded)) (\<lambda>rendered.
             succeed (htmlDocuments @ [\<lparr>url = u, htmlDocument = fst rendered,
                                         pageContextSerialized = snd rendered,
                                         doNotCreateExtraDirectory = False\<rparr>])))"

text \<open>
  The pages of \<^verbatim>\<open>allPageIds\<close> that no hook URL was routed to, each with its task;
  \<open>order\<close> is the order in which the tasks settle. Page ids are paths, so
  \<^verbatim>\<open>renderedPageIds[pageId]\<close> is set exactly for the ids that were stored.
\<close>

definition renderStaticRoutes ::
  "world \<Rightarrow> (string list \<Rightarrow> string list) \<Rightarrow> bool \<Rightarrow> string list \<Rightarrow>
   (string \<Rightarrow> pageRoute option) \<Rightarrow> bool \<Rightarrow> string list \<Rightarrow>
   HtmlDocument list \<Rightarrow> HtmlDocument list run" where
  "renderStaticRoutes w order partial allPageIds pageRoutes pageContextNeeded renderedPageIds htmlDocuments =
     promiseAll (staticRouteTask w partial allPageIds pageRoutes pageContextNeeded)
       (order (filter (\<lambda>pageId. pageId \<notin> set renderedPageIds) allPageIds)) htmlDocuments"

definition static404Fallback :: "world \<Rightarrow> HtmlDocument list \<Rightarrow> HtmlDocument list run" where
  "static404Fallback w htmlDocuments =
     (if find (\<lambda>d. url d = ''/404'') htmlDocuments = None
      then andThen (call RenderStatic404PageCalled (renderStatic404Page w)) (\<lambda>result.
             case result of
               None \<Rightarrow> succeed htmlDocuments
             | Some html \<Rightarrow>
                 succeed (htmlDocuments @ [\<lparr>url = ''/404'', htmlDocument = html,
                                             pageContextSerialized = None,
                                             doNotCreateExtraDirectory = True\<rparr>]))
      else succeed htmlDocuments)"

section \<open>Writing\<close>

text \<open>\<^verbatim>\<open>s.split('/').join(sep)\<close>\<close>

definition splitJoin :: "string \<Rightarrow> string \<Rightarrow> string" where
  "splitJoin separator s = concat (map (\<lambda>c. if c = CHR ''/'' then separator else [c]) s)"

text \<open>\<^verbatim>\<open>write\<close> of the source, named \<open>writeTo\<close> here.\<close>

definition writeTo :: "world \<Rightarrow> string \<Rightarrow> string \<Rightarrow> string \<Rightarrow> string \<Rightarrow> bool \<Rightarrow> unit run" where
  "writeTo w u fileExtension fileContent root noExtraDirectory =
     (let fileUrl = getFileUrl w u fileExtension noExtraDirectory;
          filePathRelative = splitJoin (sep w) (drop 1 fileUrl);
          filePath = path_join w [root, ''dist'', ''client'', filePathRelative]
      in andThen (lift (assert (startsWith fileUrl ''/''))) (\<lambda>_.
         andThen (lift (assert (\<not> startsWith filePathRelative (sep w)))) (\<lambda>_.
         andThen (call (Mkdir (dirname w filePath)) (mkdir w (dirname w filePath))) (\<lambda>_.
           call (WriteFile filePath fileContent) (writeFile w filePath fileContent)))))"

text \<open>
  The write jobs of a document, as (extension, content): the document, and the
  sidecar when there is a serialized page context.
\<close>

definition writeJobs :: "HtmlDocument \<Rightarrow> (string \<times> string) list" where
  "writeJobs d =
     (''.html'', htmlDocument d) #
     (case pageContextSerialized d of
        None \<Rightarrow> []
      | Some serialized \<Rightarrow> [(''.pageContext.json'', serialized)])"

text \<open>
  In this sequential reading the jobs of one document run one after the other; how
  they overlap in time is the subject of the last section.
\<close>

definition writeHtmlDocument :: "world \<Rightarrow> HtmlDocument \<Rightarrow> string \<Rightarrow> unit run" where
  "writeHtmlDocument w d root =
     andThen (lift (assert (startsWith (url d) ''/''))) (\<lambda>_.
       forEachRun (\<lambda>job _. writeTo w (url d) (fst job) (snd job) root (doNotCreateExtraDirectory d))
         (writeJobs d) ())"

definition writeHtmlDocuments :: "world \<Rightarrow> string \<Rightarrow> HtmlDocument list \<Rightarrow> unit run" where
  "writeHtmlDocuments w root htmlDocuments =
     forEachRun (\<lambda>htmlDoc _. writeHtmlDocument w htmlDoc root) htmlDocuments ()"

section \<open>\<^verbatim>\<open>prerender\<close>\<close>

text \<open>
  The arguments are the options as passed: \<^verbatim>\<open>undefined\<close> (\<open>None\<close> for the root) takes
  the default of the parameter list.
\<close>

definition orDefault :: "jsval \<Rightarrow> jsval \<Rightarrow> jsval" where
  "orDefault v d = (if v = JUndefined then d else v)"

definition rootOrCwd :: "world \<Rightarrow> string option \<Rightarrow> string" where
  "rootOrCwd w root_option = (case root_option of None \<Rightarrow> cwd w | Some r \<Rightarrow> r)"

text \<open>\<^verbatim>\<open>(await getPageIds()).filter((pageId) => !isErrorPage(pageId))\<close>\<close>

definition nonErrorPages :: "world \<Rightarrow> string list \<Rightarrow> string list" where
  "nonErrorPages w pageIds = filter (\<lambda>pageId. \<not> isErrorPage w pageId) pageIds"

record schedule =
  hookOrder :: "string list \<Rightarrow> string list"
  urlOrder :: "prerenderData \<Rightarrow> prerenderData"
  pageOrder :: "string list \<Rightarrow> string list"

text \<open>Every task settles in the order of its list.\<close>

definition inListOrder :: schedule where
  "inListOrder = \<lparr>hookOrder = (\<lambda>xs. xs), urlOrder = (\<lambda>xs. xs), pageOrder = (\<lambda>xs. xs)\<rparr>"

definition prerender ::
  "world \<Rightarrow> schedule \<Rightarrow> jsval \<Rightarrow> string option \<Rightarrow> jsval \<Rightarrow> jsval \<Rightarrow> unit run" where
  "prerender w sched partial_option root_option clientRouter_option base_option =
     andThen (prerenderSetup w (orDefault partial_option (JBool False)) (rootOrCwd w root_option)
                (orDefault clientRouter_option (JBool False)) base_option) (\<lambda>pluginManifest.
     andThen (call GetPageIds (getPageIds w)) (\<lambda>pageIds.
     andThen (call LoadPageRoutes (loadPageRoutes w)) (\<lambda>pageRoutes.
     andThen (collectPrerenderData w (hookOrder sched (nonErrorPages w pageIds))) (\<lambda>prerenderData.
     andThen (renderPrerenderData w (nonErrorPages w pageIds)
                (doesClientSideRouting pluginManifest) (urlOrder sched prerenderData)) (\<lambda>rendered.
     andThen (renderStaticRoutes w (pageOrder sched) (truthy (orDefault partial_option (JBool False)))
                (nonErrorPages w pageIds) pageRoutes
                (doesClientSideRouting pluginManifest) (snd rendered) (fst rendered)) (\<lambda>htmlDocuments.
     andThen (static404Fallback w htmlDocuments) (\<lambda>htmlDocuments'.
       writeHtmlDocuments w (rootOrCwd w root_option) htmlDocuments')))))))"



section \<open>A small site\<close>

text \<open>
  Three pages: an index page routed by the file system, a movie page with a
  parameterized route string, and the error page. No page has a
  \<^verbatim>\<open>prerender()\<close> hook; the examples below add one.
\<close>

definition demo :: world where
  "demo =
     \<lparr>package_version = ''0.1.0'',
      cwd = ''/app'',
      moduleExists = (\<lambda>path. path = ''/app/dist/client/vite-plugin-ssr.json''),
      require = (\<lambda>path. JObj [(''version'', JStr ''0.1.0''), (''base'', JStr ''/''),
                               (''doesClientSideRouting'', JBool False)]),
      getPageIds = Inr [''/pages/index'', ''/pages/movie'', ''/pages/_error''],
      isErrorPage = (\<lambda>pageId. pageId = ''/pages/_error''),
      loadPageRoutes = Inr (\<lambda>pageId. if pageId = ''/pages/movie''
                                        then Some (RouteString ''/movie/:id'') else None),
      getPageFunctions = (\<lambda>pageId. Inr None),
      route = (\<lambda>u allPageIds pc.
                 Inr (if u = ''/'' then Some (''/pages/index'', [(''routeParams'', JObj [])])
                      else if startsWith u ''/movie/''
                      then Some (''/pages/movie'',
                                 [(''routeParams'', JObj [(''id'', JStr (drop 7 u))])])
                      else None)),
      prerenderPage = (\<lambda>pageId pc u skipHook needed.
                         Inr (''<html>'' @ u @ ''</html>'', if needed then Some ''{}'' else None)),
      renderStatic404Page = Inr (Some ''<html>404</html>''),
      getFilesystemRoute = (\<lambda>pageId allPageIds.
                              if pageId = ''/pages/index'' then ''/'' else drop 6 pageId),
      isStaticRoute = (\<lambda>r. CHR '':'' \<notin> set r),
      getFileUrl = (\<lambda>u fileExtension noExtraDirectory.
                      if noExtraDirectory then u @ fileExtension
                      else if u \<noteq> [] \<and> last u = CHR ''/'' then u @ ''index'' @ fileExtension
                      else u @ ''/index'' @ fileExtension),
      sep = ''/'',
      path_join = (\<lambda>parts. concat (map (\<lambda>part. ''/'' @ part) parts)),
      dirname = (\<lambda>path. path),
      mkdir = (\<lambda>path. Inr ()),
      writeFile = (\<lambda>path content. Inr ())\<rparr>"

text \<open>The movie page with a hook that returns the given value.\<close>

definition demoWithHook :: "jsval \<Rightarrow> world" where
  "demoWithHook prerenderResult =
     demo\<lparr>getPageFunctions := (\<lambda>pageId.
       if pageId = ''/pages/movie''
       then Inr (Some (''/pages/movie.page.server.js'', Inr prerenderResult))
       else Inr None)\<rparr>"


text \<open>
  A site with an index page and an about page whose route file exports the given
  route string.
\<close>

definition demoAbout :: "string \<Rightarrow> world" where
  "demoAbout pageRoute =
     demo\<lparr>getPageIds := Inr [''/pages/index'', ''/pages/about''],
          loadPageRoutes := Inr (\<lambda>pageId. if pageId = ''/pages/about''
                                           then Some (RouteString pageRoute) else None)\<rparr>"

text \<open>A world with the \<^verbatim>\<open>join\<close> and \<^verbatim>\<open>dirname\<close> of POSIX paths.\<close>

definition withPosixPaths :: "world \<Rightarrow> world" where
  "withPosixPaths w =
     w\<lparr>path_join := (\<lambda>parts. case parts of
                          [] \<Rightarrow> ''.''
                        | part # rest \<Rightarrow> part @ concat (map (\<lambda>p. ''/'' @ p) rest)),
       dirname := (\<lambda>path. rev (drop 1 (dropWhile (\<lambda>c. c \<noteq> CHR ''/'') (rev path))))\<rparr>"

section \<open>The write phase in time\<close>

text \<open>
  \<^verbatim>\<open>for (const htmlDoc of htmlDocuments) { await writeHtmlDocument(htmlDoc, root) }\<close>,
  with the two \<^verbatim>\<open>write\<close> jobs of a document started together and awaited with
  \<^verbatim>\<open>Promise.all\<close>. The state of the loop is the index of the next document, the jobs in
  flight, whether the loop has thrown, and the history of the jobs that began, ended
  and failed.
\<close>

text \<open>A write job in flight waits for \<^verbatim>\<open>mkdir\<close> or for \<^verbatim>\<open>writeFile\<close>.\<close>

datatype awaiting = AwaitMkdir | AwaitWriteFile

text \<open>A job: the index of its document in \<^verbatim>\<open>htmlDocuments\<close>, its extension, its stage.\<close>

type_synonym job = "nat \<times> string \<times> awaiting"

datatype wevent = Began nat string | Ended nat string | Failed nat string

record wstate =
  next_doc :: nat
  in_flight :: "job list"
  aborted :: bool
  history :: "wevent list"

definition wstart :: wstate where
  "wstart = \<lparr>next_doc = 0, in_flight = [], aborted = False, history = []\<rparr>"

text \<open>
  One step of the loop. A call of \<^verbatim>\<open>writeHtmlDocument\<close> starts all the jobs of the next
  document at once and awaits \<^verbatim>\<open>Promise.all\<close> of them, so the loop goes on to the next
  document only when no job is in flight and nothing was thrown. Each job goes through
  its two awaits in its own time; a job that fails rejects \<^verbatim>\<open>Promise.all\<close>, which ends
  the loop, while the other job of the document may still be in flight.
\<close>

inductive wstep :: "HtmlDocument list \<Rightarrow> wstate \<Rightarrow> wstate \<Rightarrow> bool"
  for htmlDocuments :: "HtmlDocument list" where
  next_document:
    "next_doc s < length htmlDocuments \<Longrightarrow> in_flight s = [] \<Longrightarrow> \<not> aborted s \<Longrightarrow>
     startsWith (url (htmlDocuments ! next_doc s)) ''/'' \<Longrightarrow>
     wstep htmlDocuments s
       \<lparr>next_doc = Suc (next_doc s),
        in_flight = map (\<lambda>job. (next_doc s, fst job, AwaitMkdir))
                      (writeJobs (htmlDocuments ! next_doc s)),
        aborted = False,
        history = history s @ map (\<lambda>job. Began (next_doc s) (fst job))
                                  (writeJobs (htmlDocuments ! next_doc s))\<rparr>"
| assert_failed:
    "next_doc s < length htmlDocuments \<Longrightarrow> in_flight s = [] \<Longrightarrow> \<not> aborted s \<Longrightarrow>
     \<not> startsWith (url (htmlDocuments ! next_doc s)) ''/'' \<Longrightarrow>
     wstep htmlDocuments s (s\<lparr>aborted := True\<rparr>)"
| mkdir_done:
    "(i, ext, AwaitMkdir) \<in> set (in_flight s) \<Longrightarrow>
     wstep htmlDocuments s
       (s\<lparr>in_flight := map (\<lambda>j. if j = (i, ext, AwaitMkdir) then (i, ext, AwaitWriteFile) else j)
                            (in_flight s)\<rparr>)"
| writeFile_done:
    "(i, ext, AwaitWriteFile) \<in> set (in_flight s) \<Longrightarrow>
     wstep htmlDocuments s
       (s\<lparr>in_flight := removeAll (i, ext, AwaitWriteFile) (in_flight s),
          history := history s @ [Ended i ext]\<rparr>)"
| job_failed:
    "(i, ext, a) \<in> set (in_flight s) \<Longrightarrow>
     wstep htmlDocuments s
       (s\<lparr>in_flight := removeAll (i, ext, a) (in_flight s), aborted := True,
          history := history s @ [Failed i ext]\<rparr>)"

code_pred wstep .

inductive reachable :: "HtmlDocument list \<Rightarrow> wstate \<Rightarrow> bool"
  for htmlDocuments :: "HtmlDocument list" where
  at_start: "reachable htmlDocuments wstart"
| after_step: "reachable htmlDocuments s \<Longrightarrow> wstep htmlDocuments s s' \<Longrightarrow> reachable htmlDocuments s'"

text \<open>
  All the jobs of the documents before the \<open>j\<close>-th have ended in the history \<open>h\<close>; and
  every job that begins in a history begins after all the jobs of earlier documents
  have ended.
\<close>

definition completedBefore :: "HtmlDocument list \<Rightarrow> wevent list \<Rightarrow> nat \<Rightarrow> bool" where
  "completedBefore htmlDocuments h j =
     (\<forall>i < j. \<forall>job \<in> set (writeJobs (htmlDocuments ! i)). Ended i (fst job) \<in> set h)"

definition writesInOrder :: "HtmlDocument list \<Rightarrow> wevent list \<Rightarrow> bool" where
  "writesInOrder htmlDocuments h =
     (\<forall>b < length h.
        case h ! b of
          Began j ext \<Rightarrow> j < length htmlDocuments \<and> completedBefore htmlDocuments (take b h) j
        | _ \<Rightarrow> True)"

text \<open>The invariant of the loop.\<close>

definition winv :: "HtmlDocument list \<Rightarrow> wstate \<Rightarrow> bool" where
  "winv htmlDocuments s =
     (next_doc s \<le> length htmlDocuments
      \<and> (\<forall>j \<in> set (in_flight s). Suc (fst j) = next_doc s)
      \<and> (\<not> aborted s \<longrightarrow>
           (\<forall>i < next_doc s. \<forall>job \<in> set (writeJobs (htmlDocuments ! i)).
              Ended i (fst job) \<in> set (history s) \<or>
              (\<exists>a. (i, fst job, a) \<in> set (in_flight s))))
      \<and> writesInOrder htmlDocuments (history s))"

section \<open>Sequencing lemmas\<close>

lemma andThen_succeed [simp]: "andThen (succeed x) f = f x"
  by (simp add: andThen_def succeed_def)

lemma andThen_failWith [simp]: "andThen (failWith e) f = (Inl e, [])"
  by (simp add: andThen_def failWith_def)

lemma andThen_lift_Inr [simp]: "andThen (lift (Inr x)) f = f x"
  by (simp add: andThen_def lift_def)

lemma andThen_lift_Inl [simp]: "andThen (lift (Inl e)) f = (Inl e, [])"
  by (simp add: andThen_def lift_def)

lemma andThen_emit [simp]: "andThen (emit ev) f = (fst (f ()), ev # snd (f ()))"
  by (simp add: andThen_def emit_def)

lemma andThen_call_Inr [simp]: "andThen (call ev (Inr x)) f = (fst (f x), ev # snd (f x))"
  by (simp add: call_def andThen_def emit_def lift_def)

lemma andThen_call_Inl [simp]: "andThen (call ev (Inl e)) f = (Inl e, [ev])"
  by (simp add: call_def andThen_def emit_def lift_def)

lemma andThen_pair_Inr [simp]: "andThen (Inr x, t) f = (fst (f x), t @ snd (f x))"
  by (simp add: andThen_def)

lemma andThen_pair_Inl [simp]: "andThen (Inl e, t) f = (Inl e, t)"
  by (simp add: andThen_def)

lemmas run_defs = succeed_def failWith_def lift_def emit_def call_def

lemma andThen_Inr: "m = (Inr x, t) \<Longrightarrow> andThen m f = (fst (f x), t @ snd (f x))"
  by (simp add: andThen_def)

lemma andThen_Inl: "m = (Inl e, t) \<Longrightarrow> andThen m f = (Inl e, t)"
  by (simp add: andThen_def)


lemma forEachRun_append:
  "forEachRun f (xs @ ys) s = andThen (forEachRun f xs s) (forEachRun f ys)"
proof (induction xs arbitrary: s)
  case Nil
  show ?case by simp
next
  case (Cons x xs)
  show ?case
    by (cases "f x s") (auto simp: andThen_def Cons split: sum.splits)
qed







section \<open>Properties of \<^verbatim>\<open>getPageById\<close>\<close>

lemma getPageById_loaded:
  assumes "getPageFile ''.page'' pageId = Some pf"
    and "loadFile pf = Inr fileExports"
    and "typeof fileExports = ''object''"
    and "fileExports \<noteq> JNull"
  shows "getPageById getPageFile pageId =
     (if js_in ''Page'' fileExports \<or> js_in ''default'' fileExports
      then Inr (js_or (getProp fileExports ''Page'') (getProp fileExports ''default''))
      else Inl (UsageError (pageExportMsg (filePath pf))))"
  using assms by (simp add: getPageById_def)

lemma js_in_getProp_truthy: "truthy (getProp v k) \<Longrightarrow> js_in k v"
  by (force simp: getProp_def js_in_def object_keys_def
      split: option.splits dest: map_of_SomeD)

text \<open>
  C9. For a page file that was found and loaded, whose exports are an object,
  \<^verbatim>\<open>getPageById\<close> raises a usage error exactly when the exports have neither a
  \<^verbatim>\<open>Page\<close> key nor a \<^verbatim>\<open>default\<close> key; the message then starts with the file's path.
  When one of the two keys is there, a value is returned and nothing is raised.
\<close>

theorem getPageById_usage_error_iff:
  assumes "getPageFile ''.page'' pageId = Some pf"
    and "loadFile pf = Inr fileExports"
    and "typeof fileExports = ''object''"
    and "fileExports \<noteq> JNull"
  shows "((\<exists>msg. getPageById getPageFile pageId = Inl (UsageError msg)) \<longleftrightarrow>
            \<not> js_in ''Page'' fileExports \<and> \<not> js_in ''default'' fileExports)
       \<and> (\<not> js_in ''Page'' fileExports \<and> \<not> js_in ''default'' fileExports \<longrightarrow>
            getPageById getPageFile pageId =
              Inl (UsageError (filePath pf @ '' should have a `export { Page }` (or a default export).'')))
       \<and> (js_in ''Page'' fileExports \<or> js_in ''default'' fileExports \<longrightarrow>
            (\<exists>page. getPageById getPageFile pageId = Inr page))"
  using getPageById_loaded [of getPageFile pageId pf fileExports] assms
  by (auto simp: pageExportMsg_def)

theorem getPageById_usage_error_iff_witness:
  "getPageById (\<lambda>kind pageId. Some \<lparr>filePath = ''/pages/about.page.js'',
        loadFile = Inr (JInst ''Module'' [(''title'', JStr ''About'')])\<rparr>) ''/pages/about''
     = Inl (UsageError ''/pages/about.page.js should have a `export { Page }` (or a default export).'')
   \<and> (\<exists>page. getPageById (\<lambda>kind pageId. Some \<lparr>filePath = ''/pages/index.page.js'',
        loadFile = Inr (JInst ''Module'' [(''default'', JFun ''Index'')])\<rparr>) ''/pages/index''
     = Inr page)"
proof -
  let ?pf = "\<lparr>filePath = ''/pages/about.page.js'',
        loadFile = Inr (JInst ''Module'' [(''title'', JStr ''About'')])\<rparr>"
  let ?pg = "\<lparr>filePath = ''/pages/index.page.js'',
        loadFile = Inr (JInst ''Module'' [(''default'', JFun ''Index'')])\<rparr>"
  have a: "getPageById (\<lambda>kind pageId. Some ?pf) ''/pages/about''
     = Inl (UsageError ''/pages/about.page.js should have a `export { Page }` (or a default export).'')"
    using getPageById_usage_error_iff [of "\<lambda>kind pageId. Some ?pf" "''/pages/about''" ?pf
        "JInst ''Module'' [(''title'', JStr ''About'')]"]
    by (simp add: js_in_def object_keys_def)
  have b: "\<exists>page. getPageById (\<lambda>kind pageId. Some ?pg) ''/pages/index'' = Inr page"
    using getPageById_usage_error_iff [of "\<lambda>kind pageId. Some ?pg" "''/pages/index''" ?pg
        "JInst ''Module'' [(''default'', JFun ''Index'')]"]
    by (simp add: js_in_def object_keys_def)
  from a b show ?thesis by simp
qed

text \<open>
  C10. For a page file that was found and loaded, whose exports are an object with at
  least one of the two keys: a truthy \<^verbatim>\<open>Page\<close> export is what \<^verbatim>\<open>getPageById\<close>
  returns, also when a \<^verbatim>\<open>default\<close> export is there; when the \<^verbatim>\<open>Page\<close> export is
  absent or falsy, the value of \<^verbatim>\<open>default\<close> is returned (\<^verbatim>\<open>undefined\<close> when there is
  none), so a falsy \<^verbatim>\<open>Page\<close> falls through to the default export; and the value of
  \<^verbatim>\<open>default\<close> is returned in place of a different \<^verbatim>\<open>Page\<close> value only then.
\<close>

theorem getPageById_prefers_Page:
  assumes "getPageFile ''.page'' pageId = Some pf"
    and "loadFile pf = Inr fileExports"
    and "typeof fileExports = ''object''"
    and "fileExports \<noteq> JNull"
    and "js_in ''Page'' fileExports \<or> js_in ''default'' fileExports"
  shows "(truthy (getProp fileExports ''Page'') \<longrightarrow>
            getPageById getPageFile pageId = Inr (getProp fileExports ''Page''))
       \<and> (\<not> js_in ''Page'' fileExports \<or> \<not> truthy (getProp fileExports ''Page'') \<longrightarrow>
            getPageById getPageFile pageId = Inr (getProp fileExports ''default''))
       \<and> (getPageById getPageFile pageId = Inr (getProp fileExports ''default'') \<and>
          getProp fileExports ''default'' \<noteq> getProp fileExports ''Page'' \<longrightarrow>
            \<not> js_in ''Page'' fileExports \<or> \<not> truthy (getProp fileExports ''Page''))"
  using getPageById_loaded [of getPageFile pageId pf fileExports] assms
    js_in_getProp_truthy [of fileExports "''Page''"]
  by (auto simp: js_or_def)

theorem getPageById_prefers_Page_witness:
  "getPageById (\<lambda>kind pageId. Some \<lparr>filePath = ''/pages/index.page.js'',
        loadFile = Inr (JInst ''Module'' [(''Page'', JFun ''P''), (''default'', JFun ''D'')])\<rparr>)
      ''/pages/index'' = Inr (JFun ''P'')
   \<and> getPageById (\<lambda>kind pageId. Some \<lparr>filePath = ''/pages/index.page.js'',
        loadFile = Inr (JInst ''Module'' [(''Page'', JNum 0), (''default'', JFun ''D'')])\<rparr>)
      ''/pages/index'' = Inr (JFun ''D'')"
proof -
  let ?e1 = "JInst ''Module'' [(''Page'', JFun ''P''), (''default'', JFun ''D'')]"
  let ?e2 = "JInst ''Module'' [(''Page'', JNum 0), (''default'', JFun ''D'')]"
  let ?p1 = "\<lparr>filePath = ''/pages/index.page.js'', loadFile = Inr ?e1\<rparr>"
  let ?p2 = "\<lparr>filePath = ''/pages/index.page.js'', loadFile = Inr ?e2\<rparr>"
  have a: "getPageById (\<lambda>kind pageId. Some ?p1) ''/pages/index'' = Inr (JFun ''P'')"
    using getPageById_prefers_Page [of "\<lambda>kind pageId. Some ?p1" "''/pages/index''" ?p1 ?e1]
    by (simp add: js_in_def object_keys_def getProp_def)
  have b: "getPageById (\<lambda>kind pageId. Some ?p2) ''/pages/index'' = Inr (JFun ''D'')"
    using getPageById_prefers_Page [of "\<lambda>kind pageId. Some ?p2" "''/pages/index''" ?p2 ?e2]
    by (simp add: js_in_def object_keys_def getProp_def)
  from a b show ?thesis by simp
qed

section \<open>Properties of \<^verbatim>\<open>normalizePrerenderResult\<close>\<close>

lemma checkKeys_ok_iff:
  "(checkKeys f ks = Inr ()) \<longleftrightarrow> list_all (\<lambda>k. k = ''url'' \<or> k = ''pageContext'') ks"
  by (induction ks) auto

lemma checkKeys_cases: "checkKeys f ks = Inr () \<or> (\<exists>msg. checkKeys f ks = Inl (UsageError msg))"
  by (induction ks) auto

lemma map_of_spread_single:
  "map_of (spread kvs [(k, v)]) = (map_of kvs)(k \<mapsto> v)"
  by (simp add: spread_def update_conv')

lemma in_keys_iff: "k \<in> fst ` set kvs \<longleftrightarrow> map_of kvs k \<noteq> None"
  by (simp add: map_of_eq_None_iff)

lemma pageContext_ok_iff:
  "(hasProp (withPageContext (JObj kvs)) ''pageContext'' \<and>
      (getProp (withPageContext (JObj kvs)) ''pageContext'' = JNull \<or>
       isPlainObject (getProp (withPageContext (JObj kvs)) ''pageContext'')))
   \<longleftrightarrow> validPageContext kvs"
proof (cases "map_of kvs ''pageContext''")
  case None
  then show ?thesis
    by (simp add: withPageContext_def hasProp_def js_in_def object_keys_def in_keys_iff
        getProp_def map_of_spread_single validPageContext_def)
next
  case (Some v)
  then show ?thesis
    by (cases v) (simp_all add: withPageContext_def hasProp_def js_in_def object_keys_def in_keys_iff
        getProp_def validPageContext_def)
qed

lemma normalizeUrl_ok_iff:
  "(\<exists>en. normalizeUrl f (JObj kvs) u = Inr en) \<longleftrightarrow>
     (\<exists>url. u = JStr url \<and> startsWith url ''/'') \<and>
     list_all (\<lambda>k. k = ''url'' \<or> k = ''pageContext'') (map fst kvs) \<and> validPageContext kvs"
proof (cases u)
  case (JStr url)
  show ?thesis
    using checkKeys_cases [of f "map fst kvs"] checkKeys_ok_iff [of f "map fst kvs"]
      pageContext_ok_iff [of kvs]
    unfolding JStr by (auto simp: object_keys_def simp del: isPlainObject.simps)
qed simp_all

lemma normalizeUrl_cases:
  "(\<exists>en. normalizeUrl f (JObj kvs) u = Inr en) \<or> (\<exists>msg. normalizeUrl f (JObj kvs) u = Inl (UsageError msg))"
  using checkKeys_cases [of f "map fst kvs"]
  by (cases u) (auto simp: object_keys_def simp del: isPlainObject.simps)

lemma normalize_ok_iff: "(\<exists>en. normalizeElement f v = Inr en) \<longleftrightarrow> validElement v"
proof (cases v)
  case (JObj kvs)
  have "validUrl kvs \<longleftrightarrow> hasProp (JObj kvs) ''url'' \<and> (\<exists>url. getProp (JObj kvs) ''url'' = JStr url \<and> startsWith url ''/'')"
    by (auto simp: validUrl_def hasProp_def js_in_def object_keys_def in_keys_iff getProp_def
        split: option.splits jsval.splits)
  then show ?thesis
    unfolding JObj using normalizeUrl_ok_iff [of f kvs "getProp (JObj kvs) ''url''"]
    by (auto simp: validElement_def)
qed (simp_all add: validElement_def)

lemma normalize_cases:
  "(\<exists>en. normalizeElement f v = Inr en) \<or> (\<exists>msg. normalizeElement f v = Inl (UsageError msg))"
  using normalizeUrl_cases by (cases v) auto

lemma mapE_ok_iff: "(\<exists>ys. mapE g xs = Inr ys) \<longleftrightarrow> list_all (\<lambda>x. \<exists>y. g x = Inr y) xs"
  by (induction xs) (auto split: sum.splits)

lemma mapE_cases:
  assumes "\<And>x. (\<exists>y. g x = Inr y) \<or> (\<exists>msg. g x = Inl (UsageError msg))"
  shows "(\<exists>ys. mapE g xs = Inr ys) \<or> (\<exists>msg. mapE g xs = Inl (UsageError msg))"
proof (induction xs)
  case Nil
  show ?case by simp
next
  case (Cons x xs)
  from assms [of x] Cons show ?case by (auto split: sum.splits)
qed

text \<open>
  C4. Normalising the value a \<^verbatim>\<open>prerender()\<close> hook returned succeeds exactly when
  the value is a bare string, a plain object with a string \<^verbatim>\<open>url\<close> that starts with
  \<^verbatim>\<open>/\<close>, no key other than \<^verbatim>\<open>url\<close> and \<^verbatim>\<open>pageContext\<close> and a \<^verbatim>\<open>pageContext\<close>
  that is absent, \<^verbatim>\<open>null\<close> or a plain object, or an array of such values. On any
  other value it raises a usage error. A bare string becomes one entry whose
  \<^verbatim>\<open>pageContext\<close> is \<^verbatim>\<open>null\<close>.
\<close>

theorem normalizePrerenderResult_ok_iff:
  "((\<exists>entries. normalizePrerenderResult prerenderResult sourceFile = Inr entries) \<longleftrightarrow>
      validPrerenderResult prerenderResult)
   \<and> (\<not> validPrerenderResult prerenderResult \<longrightarrow>
      (\<exists>msg. normalizePrerenderResult prerenderResult sourceFile = Inl (UsageError msg)))
   \<and> normalizePrerenderResult (JStr u) sourceFile = Inr [(u, None)]"
proof -
  let ?n = "normalizeElement sourceFile"
  have ok: "(\<exists>ys. mapE ?n xs = Inr ys) \<longleftrightarrow> list_all validElement xs" for xs
  proof -
    have "(\<lambda>x. \<exists>y. ?n x = Inr y) = validElement"
      by (rule ext) (rule normalize_ok_iff)
    then show ?thesis by (simp add: mapE_ok_iff)
  qed
  have cs: "(\<exists>ys. mapE ?n xs = Inr ys) \<or> (\<exists>msg. mapE ?n xs = Inl (UsageError msg))" for xs
    by (rule mapE_cases) (rule normalize_cases)
  have a: "(\<exists>entries. normalizePrerenderResult prerenderResult sourceFile = Inr entries) \<longleftrightarrow>
      validPrerenderResult prerenderResult"
  proof (cases prerenderResult)
    case (JArr elements)
    then show ?thesis using ok [of elements]
      by (simp add: normalizePrerenderResult_def validPrerenderResult_def)
  qed (use ok [of "[prerenderResult]"] in \<open>simp_all add: normalizePrerenderResult_def validPrerenderResult_def\<close>)
  have b: "(\<exists>entries. normalizePrerenderResult prerenderResult sourceFile = Inr entries) \<or>
     (\<exists>msg. normalizePrerenderResult prerenderResult sourceFile = Inl (UsageError msg))"
  proof (cases prerenderResult)
    case (JArr elements)
    then show ?thesis using cs [of elements] by (simp add: normalizePrerenderResult_def)
  qed (use cs [of "[prerenderResult]"] in \<open>simp_all add: normalizePrerenderResult_def\<close>)
  have c: "normalizePrerenderResult (JStr u) sourceFile = Inr [(u, None)]"
    by (simp add: normalizePrerenderResult_def)
  from a b c show ?thesis by blast
qed


theorem normalizePrerenderResult_ok_iff_witness:
  "validPrerenderResult (JArr [JStr ''/movies/1'',
       JObj [(''url'', JStr ''/movies/2''), (''pageContext'', JObj [(''title'', JStr ''X'')])]])
   \<and> (\<exists>entries. normalizePrerenderResult (JArr [JStr ''/movies/1'',
       JObj [(''url'', JStr ''/movies/2''), (''pageContext'', JObj [(''title'', JStr ''X'')])]])
       ''/pages/movie.page.server.js'' = Inr entries)
   \<and> \<not> validPrerenderResult (JObj [(''url'', JStr ''/movies/2''), (''title'', JStr ''X'')])
   \<and> (\<exists>msg. normalizePrerenderResult (JObj [(''url'', JStr ''/movies/2''), (''title'', JStr ''X'')])
       ''/pages/movie.page.server.js'' = Inl (UsageError msg))"
proof -
  let ?good = "JArr [JStr ''/movies/1'',
       JObj [(''url'', JStr ''/movies/2''), (''pageContext'', JObj [(''title'', JStr ''X'')])]]"
  let ?bad = "JObj [(''url'', JStr ''/movies/2''), (''title'', JStr ''X'')]"
  have g: "validPrerenderResult ?good"
    by (simp add: validPrerenderResult_def validElement_def validUrl_def validPageContext_def
        startsWith_def)
  have b: "\<not> validPrerenderResult ?bad"
    by (simp add: validPrerenderResult_def validElement_def)
  from g b
    normalizePrerenderResult_ok_iff [of ?good "''/pages/movie.page.server.js''"]
    normalizePrerenderResult_ok_iff [of ?bad "''/pages/movie.page.server.js''"]
  show ?thesis by blast
qed

section \<open>Properties of the collected URLs\<close>










text \<open>
  The keys of \<^verbatim>\<open>prerenderData\<close> are URLs that start with \<^verbatim>\<open>/\<close>, so \<^verbatim>\<open>'url'\<close> is never
  one of them, and each entry overwrites the record of its URL.
\<close>

lemma addEntry_overwrites:
  assumes "startsWith (fst en) ''/''" and "\<forall>k \<in> fst ` set pd. startsWith k ''/''"
  shows "addEntry f en pd =
           Inr (AList.update (fst en)
                  \<lparr>prerenderSourceFile = f,
                   pageContext = (case snd en of None \<Rightarrow> [] | Some pc \<Rightarrow> spread [] pc),
                   noPrenderPageContext = (snd en = None)\<rparr> pd)"
proof -
  have "\<not> startsWith ''url'' ''/''" by (simp add: startsWith_def)
  with assms(2) have "''url'' \<notin> fst ` set pd" by blast
  with assms(1) show ?thesis
    by (cases "snd en") (simp_all add: addEntry_def update_conv')
qed

lemmas eval_defs = collectPrerenderData_def prerenderHookTask_def demo_def demoWithHook_def
  normalizePrerenderResult_def hasProp_def js_in_def object_keys_def getProp_def startsWith_def
  withPageContext_def addEntry_def spread_def renderPrerenderData_def prerenderUrlTask_def run_defs

text \<open>
  C1. The spec asks that the record of a URL accumulate the \<^verbatim>\<open>pageContext\<close> of every
  entry with that URL. The code tests \<^verbatim>\<open>'url' in prerenderData\<close> with the string
  \<^verbatim>\<open>'url'\<close>, which is never a key, so every entry starts the record of its URL
  afresh. Here one hook returns two entries for \<^verbatim>\<open>/movie/1\<close>, the first with
  \<^verbatim>\<open>{ title: 'A' }\<close>, the second with \<^verbatim>\<open>{ year: 1999 }\<close>: the record that results has
  \<^verbatim>\<open>year\<close> only, \<^verbatim>\<open>title\<close> is gone.
\<close>

theorem collectPrerenderData_keeps_last_entry_only:
  "collectPrerenderData
     (demoWithHook (JArr
        [JObj [(''url'', JStr ''/movie/1''), (''pageContext'', JObj [(''title'', JStr ''A'')])],
         JObj [(''url'', JStr ''/movie/1''), (''pageContext'', JObj [(''year'', JNum 1999)])]]))
     [''/pages/index'', ''/pages/movie'']
   = (Inr [(''/movie/1'', \<lparr>prerenderSourceFile = ''/pages/movie.page.server.js'',
                pageContext = [(''year'', JNum 1999)], noPrenderPageContext = False\<rparr>)],
      [HookCalled ''/pages/movie'' ''/pages/movie.page.server.js''])"
  by (simp add: eval_defs)

text \<open>
  C2. The spec asks that the renderer be told to skip the \<^verbatim>\<open>addPageContext\<close> hook
  exactly when some entry of the URL supplied a \<^verbatim>\<open>pageContext\<close>. For the same reason
  as in C1 only the last entry of a URL counts. Here one hook returns
  \<^verbatim>\<open>{ url: '/movie/1', pageContext: {} }\<close> and then the bare string \<^verbatim>\<open>'/movie/1'\<close>: the
  record has \<^verbatim>\<open>noPrenderPageContext\<close> true and the renderer is called with the flag
  false, although an entry supplied a \<^verbatim>\<open>pageContext\<close>.
\<close>

theorem prerenderPage_flag_of_last_entry_only:
  "collectPrerenderData
     (demoWithHook (JArr
        [JObj [(''url'', JStr ''/movie/1''), (''pageContext'', JObj [])], JStr ''/movie/1'']))
     [''/pages/index'', ''/pages/movie'']
   = (Inr [(''/movie/1'', \<lparr>prerenderSourceFile = ''/pages/movie.page.server.js'',
                pageContext = [], noPrenderPageContext = True\<rparr>)],
      [HookCalled ''/pages/movie'' ''/pages/movie.page.server.js''])
   \<and> snd (renderPrerenderData
     (demoWithHook (JArr
        [JObj [(''url'', JStr ''/movie/1''), (''pageContext'', JObj [])], JStr ''/movie/1'']))
     [''/pages/index'', ''/pages/movie''] False
     [(''/movie/1'', \<lparr>prerenderSourceFile = ''/pages/movie.page.server.js'',
                pageContext = [], noPrenderPageContext = True\<rparr>)])
   = [PrerenderPageCalled ''/pages/movie'' [(''routeParams'', JObj [(''id'', JStr ''1'')])]
        ''/movie/1'' False False]"
  by (simp add: eval_defs)

section \<open>Properties of the start of a run\<close>

lemma getPluginManifest_version:
  "getPluginManifest w root = Inr (Some pluginManifest, path) \<Longrightarrow>
     version pluginManifest = package_version w"
  by (auto simp: getPluginManifest_def Let_def split: if_splits jsval.splits)

lemma prerender_manifest_missing:
  assumes "\<not> moduleExists w (rootOrCwd w root_option @ ''/dist/client/vite-plugin-ssr.json'')"
    and "partial_option = JUndefined \<or> partial_option = JBool False \<or> partial_option = JBool True"
  shows "fst (prerender w sched partial_option root_option clientRouter_option base_option)
           = Inl (UsageError (manifestMissingMsg
                (rootOrCwd w root_option @ ''/dist/client/vite-plugin-ssr.json'')))
       \<and> (\<forall>ev \<in> set (snd (prerender w sched partial_option root_option clientRouter_option
                               base_option)).
            \<exists>msg. ev = Warning msg)"
  using assms
  by (auto simp: prerender_def prerenderSetup_def assertArguments_def assertUsage_def
      assertWarning_def getPluginManifest_def orDefault_def run_defs)


text \<open>
  C7. The spec asks that the run abort when the build manifest is missing (it does,
  see \<open>prerender_manifest_missing\<close>) and when the version that the manifest records
  differs from the running one. \<^verbatim>\<open>getPluginManifest\<close> reads \<^verbatim>\<open>base\<close> and
  \<^verbatim>\<open>doesClientSideRouting\<close> from the manifest and pairs them with the running
  \<^verbatim>\<open>version\<close>, so the comparison never fails. Here the manifest records \<^verbatim>\<open>0.0.9\<close>, the
  running version is \<^verbatim>\<open>0.1.0\<close>: the start of the run succeeds and sets the environment.
\<close>

theorem prerenderSetup_accepts_other_version:
  "prerenderSetup
     (demo\<lparr>require := (\<lambda>path. JObj [(''version'', JStr ''0.0.9''), (''base'', JStr ''/''),
                                      (''doesClientSideRouting'', JBool False)])\<rparr>)
     (JBool False) ''/app'' (JBool False) JUndefined
   = (Inr \<lparr>version = ''0.1.0'', base = ''/'', doesClientSideRouting = False\<rparr>,
      [SetNodeEnv ''production'', SetSsrEnv True ''/app'' ''/''])"
  by (simp add: prerenderSetup_def assertArguments_def assertUsage_def assertWarning_def
      getPluginManifest_def demo_def hasProp_def js_in_def object_keys_def getProp_def
      run_defs)


section \<open>A hook URL that matches no page\<close>


















section \<open>Pages that no hook URL was routed to\<close>
































section \<open>The fallback for \<^verbatim>\<open>/404\<close>\<close>

lemma andThen_succeed_right: "andThen m succeed = m"
  by (cases m, cases "fst m") (auto simp: andThen_def succeed_def)

lemma writeHtmlDocuments_append:
  "writeHtmlDocuments w root (docs @ [d]) =
     andThen (writeHtmlDocuments w root docs) (\<lambda>_. writeHtmlDocument w d root)"
proof -
  have "forEachRun (\<lambda>htmlDoc _. writeHtmlDocument w htmlDoc root) [d] = (\<lambda>_. writeHtmlDocument w d root)"
  proof (rule ext)
    fix s :: unit
    have "forEachRun (\<lambda>htmlDoc _. writeHtmlDocument w htmlDoc root) [] = succeed"
      by (rule ext) simp
    then show "forEachRun (\<lambda>htmlDoc _. writeHtmlDocument w htmlDoc root) [d] s =
        writeHtmlDocument w d root"
      by (simp add: andThen_succeed_right)
  qed
  then show ?thesis
    by (simp add: writeHtmlDocuments_def forEachRun_append)
qed

lemma writeHtmlDocument_single:
  assumes "startsWith u ''/''"
  shows "writeHtmlDocument w \<lparr>url = u, htmlDocument = html, pageContextSerialized = None,
                              doNotCreateExtraDirectory = flag\<rparr> root
           = writeTo w u ''.html'' html root flag"
  using assms
  by (cases "writeTo w u ''.html'' html root flag")
     (simp add: writeHtmlDocument_def writeJobs_def assert_def andThen_def
        succeed_def lift_def split: sum.splits)

lemma writeTo_path:
  assumes "getFileUrl w u ext flag = fileUrl"
    and "startsWith fileUrl ''/''"
    and "splitJoin (sep w) (drop 1 fileUrl) = filePathRelative"
    and "\<not> startsWith filePathRelative (sep w)"
  shows "writeTo w u ext content root flag =
           (case mkdir w (dirname w (path_join w [root, ''dist'', ''client'', filePathRelative])) of
              Inl e \<Rightarrow>
                (Inl e, [Mkdir (dirname w (path_join w [root, ''dist'', ''client'',
                                             filePathRelative]))])
            | Inr _ \<Rightarrow>
                (writeFile w (path_join w [root, ''dist'', ''client'', filePathRelative]) content,
                 [Mkdir (dirname w (path_join w [root, ''dist'', ''client'', filePathRelative])),
                  WriteFile (path_join w [root, ''dist'', ''client'', filePathRelative]) content]))"
  using assms
  by (simp add: writeTo_def Let_def assert_def run_defs split: sum.splits)

lemma prerender_after_static:
  assumes "prerenderSetup w (orDefault partial_option (JBool False)) (rootOrCwd w root_option)
             (orDefault clientRouter_option (JBool False)) base_option = (Inr pluginManifest, t0)"
    and "getPageIds w = Inr pageIds"
    and "loadPageRoutes w = Inr pageRoutes"
    and "collectPrerenderData w (hookOrder sched (nonErrorPages w pageIds)) = (Inr prerenderData, t1)"
    and "renderPrerenderData w (nonErrorPages w pageIds)
             (doesClientSideRouting pluginManifest) (urlOrder sched prerenderData)
           = (Inr rendered, t2)"
    and "renderStaticRoutes w (pageOrder sched) (truthy (orDefault partial_option (JBool False)))
             (nonErrorPages w pageIds) pageRoutes (doesClientSideRouting pluginManifest)
             (snd rendered) (fst rendered)
           = (Inr docs, t3)"
  shows "prerender w sched partial_option root_option clientRouter_option base_option =
           (fst (andThen (static404Fallback w docs)
                   (writeHtmlDocuments w (rootOrCwd w root_option))),
            t0 @ GetPageIds # LoadPageRoutes # t1 @ t2 @ t3 @
            snd (andThen (static404Fallback w docs)
                   (writeHtmlDocuments w (rootOrCwd w root_option))))"
  using assms by (simp add: prerender_def)

text \<open>
  C6. The renderer of the static 404 page is called exactly when no document so far
  has the URL \<^verbatim>\<open>/404\<close>. When it returns a document, exactly one document is appended:
  its URL is \<^verbatim>\<open>/404\<close>, it has no serialized page context and
  \<^verbatim>\<open>doNotCreateExtraDirectory\<close> is set; when it returns nothing, or when a \<^verbatim>\<open>/404\<close>
  document is there, the documents are unchanged.

  Writing the appended document, when \<^verbatim>\<open>getFileUrl\<close> gives for it the path of the layout
  and the separator is that of POSIX or of Windows, is one \<^verbatim>\<open>mkdirp\<close> and one
  \<^verbatim>\<open>writeFile\<close>, of the file \<^verbatim>\<open>404.html\<close> of \<^verbatim>\<open>dist/client\<close>; a \<^verbatim>\<open>/404\<close> document without
  the flag goes to \<^verbatim>\<open>404/index.html\<close>.

  In a run that gets as far as this step, when a \<^verbatim>\<open>/404\<close> document is there the
  documents are written as they are and the renderer of the static 404 page is not
  called; otherwise, when that renderer returns a document and the documents before it
  are written, the appended document is written last.
\<close>

theorem static404Fallback_spec:
  "(RenderStatic404PageCalled \<in> set (snd (static404Fallback w htmlDocuments)) \<longleftrightarrow>
      ''/404'' \<notin> url ` set htmlDocuments)
   \<and> (''/404'' \<notin> url ` set htmlDocuments \<and> renderStatic404Page w = Inr (Some html) \<longrightarrow>
        fst (static404Fallback w htmlDocuments) =
          Inr (htmlDocuments @ [\<lparr>url = ''/404'', htmlDocument = html,
                                  pageContextSerialized = None,
                                  doNotCreateExtraDirectory = True\<rparr>]))
   \<and> (''/404'' \<notin> url ` set htmlDocuments \<and> renderStatic404Page w = Inr None \<longrightarrow>
        fst (static404Fallback w htmlDocuments) = Inr htmlDocuments)
   \<and> (''/404'' \<in> url ` set htmlDocuments \<longrightarrow>
        static404Fallback w htmlDocuments = (Inr htmlDocuments, []))
   \<and> (getFileUrl w ''/404'' ''.html'' True = getFileUrl_layout ''/404'' ''.html'' True \<and>
      (sep w = ''/'' \<or> sep w = [CHR 0x5C]) \<longrightarrow>
        writeHtmlDocument w \<lparr>url = ''/404'', htmlDocument = html, pageContextSerialized = None,
                              doNotCreateExtraDirectory = True\<rparr> root =
          (case mkdir w (dirname w (path_join w [root, ''dist'', ''client'', ''404.html''])) of
             Inl e \<Rightarrow>
               (Inl e, [Mkdir (dirname w (path_join w [root, ''dist'', ''client'', ''404.html'']))])
           | Inr _ \<Rightarrow>
               (writeFile w (path_join w [root, ''dist'', ''client'', ''404.html'']) html,
                [Mkdir (dirname w (path_join w [root, ''dist'', ''client'', ''404.html''])),
                 WriteFile (path_join w [root, ''dist'', ''client'', ''404.html'']) html])))
   \<and> (getFileUrl w ''/404'' ''.html'' False = getFileUrl_layout ''/404'' ''.html'' False \<and>
      (sep w = ''/'' \<or> sep w = [CHR 0x5C]) \<longrightarrow>
        writeHtmlDocument w \<lparr>url = ''/404'', htmlDocument = html, pageContextSerialized = None,
                              doNotCreateExtraDirectory = False\<rparr> root =
          (case mkdir w (dirname w (path_join w [root, ''dist'', ''client'',
                                       ''404'' @ sep w @ ''index.html''])) of
             Inl e \<Rightarrow>
               (Inl e, [Mkdir (dirname w (path_join w [root, ''dist'', ''client'',
                                       ''404'' @ sep w @ ''index.html'']))])
           | Inr _ \<Rightarrow>
               (writeFile w (path_join w [root, ''dist'', ''client'',
                                       ''404'' @ sep w @ ''index.html'']) html,
                [Mkdir (dirname w (path_join w [root, ''dist'', ''client'',
                                       ''404'' @ sep w @ ''index.html''])),
                 WriteFile (path_join w [root, ''dist'', ''client'',
                                       ''404'' @ sep w @ ''index.html'']) html])))
   \<and> (\<forall>pluginManifest t0 pageIds pageRoutes prerenderData t1 rendered t2 docs t3.
        prerenderSetup w (orDefault partial_option (JBool False)) (rootOrCwd w root_option)
          (orDefault clientRouter_option (JBool False)) base_option = (Inr pluginManifest, t0) \<and>
        getPageIds w = Inr pageIds \<and>
        loadPageRoutes w = Inr pageRoutes \<and>
        collectPrerenderData w (hookOrder sched (nonErrorPages w pageIds))
          = (Inr prerenderData, t1) \<and>
        renderPrerenderData w (nonErrorPages w pageIds) (doesClientSideRouting pluginManifest)
          (urlOrder sched prerenderData) = (Inr rendered, t2) \<and>
        renderStaticRoutes w (pageOrder sched) (truthy (orDefault partial_option (JBool False)))
          (nonErrorPages w pageIds) pageRoutes (doesClientSideRouting pluginManifest)
          (snd rendered) (fst rendered) = (Inr docs, t3) \<longrightarrow>
        (''/404'' \<in> url ` set docs \<longrightarrow>
           prerender w sched partial_option root_option clientRouter_option base_option =
             (fst (writeHtmlDocuments w (rootOrCwd w root_option) docs),
              t0 @ GetPageIds # LoadPageRoutes # t1 @ t2 @ t3 @
              snd (writeHtmlDocuments w (rootOrCwd w root_option) docs)))
        \<and> (\<forall>t4. ''/404'' \<notin> url ` set docs \<and> renderStatic404Page w = Inr (Some html) \<and>
             writeHtmlDocuments w (rootOrCwd w root_option) docs = (Inr (), t4) \<longrightarrow>
           prerender w sched partial_option root_option clientRouter_option base_option =
             (fst (writeHtmlDocument w
                     \<lparr>url = ''/404'', htmlDocument = html, pageContextSerialized = None,
                      doNotCreateExtraDirectory = True\<rparr> (rootOrCwd w root_option)),
              t0 @ GetPageIds # LoadPageRoutes # t1 @ t2 @ t3 @ RenderStatic404PageCalled # t4 @
              snd (writeHtmlDocument w
                     \<lparr>url = ''/404'', htmlDocument = html, pageContextSerialized = None,
                      doNotCreateExtraDirectory = True\<rparr> (rootOrCwd w root_option)))))"
proof -
  let ?doc = "\<lparr>url = ''/404'', htmlDocument = html, pageContextSerialized = None,
               doNotCreateExtraDirectory = True\<rparr>"
  let ?run = "prerender w sched partial_option root_option clientRouter_option base_option"
  have f: "(find (\<lambda>d. url d = ''/404'') docs = None) \<longleftrightarrow> ''/404'' \<notin> url ` set docs" for docs
    by (force simp: find_None_iff)
  have a: "RenderStatic404PageCalled \<in> set (snd (static404Fallback w htmlDocuments)) \<longleftrightarrow>
      ''/404'' \<notin> url ` set htmlDocuments"
    unfolding static404Fallback_def f
    by (cases "renderStatic404Page w") (auto simp: run_defs split: option.splits)
  have b: "static404Fallback w docs = (Inr (docs @ [?doc]), [RenderStatic404PageCalled])"
    if "''/404'' \<notin> url ` set docs" "renderStatic404Page w = Inr (Some html)" for docs
    using that unfolding static404Fallback_def f by (simp add: run_defs)
  have c: "fst (static404Fallback w htmlDocuments) = Inr htmlDocuments"
    if "''/404'' \<notin> url ` set htmlDocuments" "renderStatic404Page w = Inr None"
    using that unfolding static404Fallback_def f by (simp add: run_defs)
  have d: "static404Fallback w docs = (Inr docs, [])"
    if "''/404'' \<in> url ` set docs" for docs
    using that unfolding static404Fallback_def f by (simp add: run_defs)
  have slash: "startsWith ''/404'' ''/''"
    by (simp add: startsWith_def)
  have e: "writeHtmlDocument w ?doc root =
          (case mkdir w (dirname w (path_join w [root, ''dist'', ''client'', ''404.html''])) of
             Inl e \<Rightarrow>
               (Inl e, [Mkdir (dirname w (path_join w [root, ''dist'', ''client'', ''404.html'']))])
           | Inr _ \<Rightarrow>
               (writeFile w (path_join w [root, ''dist'', ''client'', ''404.html'']) html,
                [Mkdir (dirname w (path_join w [root, ''dist'', ''client'', ''404.html''])),
                 WriteFile (path_join w [root, ''dist'', ''client'', ''404.html'']) html]))"
    if "getFileUrl w ''/404'' ''.html'' True = getFileUrl_layout ''/404'' ''.html'' True"
      "sep w = ''/'' \<or> sep w = [CHR 0x5C]"
  proof -
    from that(1) have u: "getFileUrl w ''/404'' ''.html'' True = ''/404.html''"
      by (simp add: getFileUrl_layout_def)
    have rel: "splitJoin (sep w) (drop 1 ''/404.html'') = ''404.html''"
      by (simp add: splitJoin_def)
    from that(2) have ok: "\<not> startsWith ''404.html'' (sep w)"
      by (auto simp: startsWith_def)
    have "startsWith ''/404.html'' ''/''"
      by (simp add: startsWith_def)
    from writeTo_path [OF u this rel ok] show ?thesis
      unfolding writeHtmlDocument_single [OF slash] .
  qed
  have g: "writeHtmlDocument w \<lparr>url = ''/404'', htmlDocument = html, pageContextSerialized = None,
                              doNotCreateExtraDirectory = False\<rparr> root =
          (case mkdir w (dirname w (path_join w [root, ''dist'', ''client'',
                                       ''404'' @ sep w @ ''index.html''])) of
             Inl e \<Rightarrow>
               (Inl e, [Mkdir (dirname w (path_join w [root, ''dist'', ''client'',
                                       ''404'' @ sep w @ ''index.html'']))])
           | Inr _ \<Rightarrow>
               (writeFile w (path_join w [root, ''dist'', ''client'',
                                       ''404'' @ sep w @ ''index.html'']) html,
                [Mkdir (dirname w (path_join w [root, ''dist'', ''client'',
                                       ''404'' @ sep w @ ''index.html''])),
                 WriteFile (path_join w [root, ''dist'', ''client'',
                                       ''404'' @ sep w @ ''index.html'']) html]))"
    if "getFileUrl w ''/404'' ''.html'' False = getFileUrl_layout ''/404'' ''.html'' False"
      "sep w = ''/'' \<or> sep w = [CHR 0x5C]"
  proof -
    from that(1) have u: "getFileUrl w ''/404'' ''.html'' False = ''/404/index.html''"
      by (simp add: getFileUrl_layout_def)
    have rel: "splitJoin (sep w) (drop 1 ''/404/index.html'') = ''404'' @ sep w @ ''index.html''"
      by (simp add: splitJoin_def)
    from that(2) have ok: "\<not> startsWith (''404'' @ sep w @ ''index.html'') (sep w)"
      by (auto simp: startsWith_def)
    have "startsWith ''/404/index.html'' ''/''"
      by (simp add: startsWith_def)
    from writeTo_path [OF u this rel ok] show ?thesis
      unfolding writeHtmlDocument_single [OF slash] .
  qed
  have h: "(''/404'' \<in> url ` set docs \<longrightarrow>
           ?run = (fst (writeHtmlDocuments w (rootOrCwd w root_option) docs),
              t0 @ GetPageIds # LoadPageRoutes # t1 @ t2 @ t3 @
              snd (writeHtmlDocuments w (rootOrCwd w root_option) docs)))
        \<and> (\<forall>t4. ''/404'' \<notin> url ` set docs \<and> renderStatic404Page w = Inr (Some html) \<and>
             writeHtmlDocuments w (rootOrCwd w root_option) docs = (Inr (), t4) \<longrightarrow>
           ?run = (fst (writeHtmlDocument w ?doc (rootOrCwd w root_option)),
              t0 @ GetPageIds # LoadPageRoutes # t1 @ t2 @ t3 @ RenderStatic404PageCalled # t4 @
              snd (writeHtmlDocument w ?doc (rootOrCwd w root_option))))"
    if "prerenderSetup w (orDefault partial_option (JBool False)) (rootOrCwd w root_option)
          (orDefault clientRouter_option (JBool False)) base_option = (Inr pluginManifest, t0)"
       "getPageIds w = Inr pageIds"
       "loadPageRoutes w = Inr pageRoutes"
       "collectPrerenderData w (hookOrder sched (nonErrorPages w pageIds))
          = (Inr prerenderData, t1)"
       "renderPrerenderData w (nonErrorPages w pageIds) (doesClientSideRouting pluginManifest)
          (urlOrder sched prerenderData) = (Inr rendered, t2)"
       "renderStaticRoutes w (pageOrder sched) (truthy (orDefault partial_option (JBool False)))
          (nonErrorPages w pageIds) pageRoutes (doesClientSideRouting pluginManifest)
          (snd rendered) (fst rendered) = (Inr docs, t3)"
    for pluginManifest t0 pageIds pageRoutes prerenderData t1 rendered t2 docs t3
  proof (intro conjI impI allI)
    note run = prerender_after_static [OF that]
    show "?run = (fst (writeHtmlDocuments w (rootOrCwd w root_option) docs),
              t0 @ GetPageIds # LoadPageRoutes # t1 @ t2 @ t3 @
              snd (writeHtmlDocuments w (rootOrCwd w root_option) docs))"
      if "''/404'' \<in> url ` set docs"
      unfolding run d [OF that] by simp
    show "?run = (fst (writeHtmlDocument w ?doc (rootOrCwd w root_option)),
              t0 @ GetPageIds # LoadPageRoutes # t1 @ t2 @ t3 @ RenderStatic404PageCalled # t4 @
              snd (writeHtmlDocument w ?doc (rootOrCwd w root_option)))"
      if "''/404'' \<notin> url ` set docs \<and> renderStatic404Page w = Inr (Some html) \<and>
             writeHtmlDocuments w (rootOrCwd w root_option) docs = (Inr (), t4)" for t4
    proof -
      from that have 1: "static404Fallback w docs = (Inr (docs @ [?doc]), [RenderStatic404PageCalled])"
        by (intro b) simp_all
      from that show ?thesis
        unfolding run 1 by (simp add: writeHtmlDocuments_append)
    qed
  qed
  have b': "fst (static404Fallback w htmlDocuments) = Inr (htmlDocuments @ [?doc])"
    if "''/404'' \<notin> url ` set htmlDocuments \<and> renderStatic404Page w = Inr (Some html)"
    using b [of htmlDocuments] that by simp
  show ?thesis
    apply (intro conjI)
    subgoal by (rule a)
    subgoal using b' by blast
    subgoal using c by blast
    subgoal using d by blast
    subgoal using e by blast
    subgoal using g by blast
    subgoal using h by blast
    done
qed

theorem static404Fallback_spec_witness:
  "RenderStatic404PageCalled \<in> set (snd (static404Fallback (withPosixPaths demo)
       [\<lparr>url = ''/'', htmlDocument = ''<html>/</html>'', pageContextSerialized = None,
         doNotCreateExtraDirectory = False\<rparr>]))
   \<and> fst (static404Fallback (withPosixPaths demo)
       [\<lparr>url = ''/'', htmlDocument = ''<html>/</html>'', pageContextSerialized = None,
         doNotCreateExtraDirectory = False\<rparr>])
     = Inr [\<lparr>url = ''/'', htmlDocument = ''<html>/</html>'', pageContextSerialized = None,
             doNotCreateExtraDirectory = False\<rparr>,
            \<lparr>url = ''/404'', htmlDocument = ''<html>404</html>'', pageContextSerialized = None,
             doNotCreateExtraDirectory = True\<rparr>]
   \<and> fst (static404Fallback ((withPosixPaths demo)\<lparr>renderStatic404Page := Inr None\<rparr>)
       [\<lparr>url = ''/'', htmlDocument = ''<html>/</html>'', pageContextSerialized = None,
         doNotCreateExtraDirectory = False\<rparr>])
     = Inr [\<lparr>url = ''/'', htmlDocument = ''<html>/</html>'', pageContextSerialized = None,
             doNotCreateExtraDirectory = False\<rparr>]
   \<and> static404Fallback (withPosixPaths demo)
       [\<lparr>url = ''/404'', htmlDocument = ''<html>mine</html>'', pageContextSerialized = None,
         doNotCreateExtraDirectory = False\<rparr>]
     = (Inr [\<lparr>url = ''/404'', htmlDocument = ''<html>mine</html>'', pageContextSerialized = None,
              doNotCreateExtraDirectory = False\<rparr>], [])
   \<and> writeHtmlDocument (withPosixPaths demo)
       \<lparr>url = ''/404'', htmlDocument = ''<html>404</html>'', pageContextSerialized = None,
        doNotCreateExtraDirectory = True\<rparr> ''/app''
     = (Inr (), [Mkdir ''/app/dist/client'',
                 WriteFile ''/app/dist/client/404.html'' ''<html>404</html>''])
   \<and> writeHtmlDocument (withPosixPaths demo)
       \<lparr>url = ''/404'', htmlDocument = ''<html>mine</html>'', pageContextSerialized = None,
        doNotCreateExtraDirectory = False\<rparr> ''/app''
     = (Inr (), [Mkdir ''/app/dist/client/404'',
                 WriteFile ''/app/dist/client/404/index.html'' ''<html>mine</html>''])
   \<and> prerender (withPosixPaths demo) inListOrder (JBool True) None JUndefined JUndefined
     = (Inr (),
        [SetNodeEnv ''production'', SetSsrEnv True ''/app'' ''/'', GetPageIds, LoadPageRoutes,
         PrerenderPageCalled ''/pages/index'' [(''routeParams'', JObj [])] ''/'' False False,
         RenderStatic404PageCalled,
         Mkdir ''/app/dist/client'',
         WriteFile ''/app/dist/client/index.html'' ''<html>/</html>'',
         Mkdir ''/app/dist/client'',
         WriteFile ''/app/dist/client/404.html'' ''<html>404</html>''])
   \<and> prerender (withPosixPaths (demoAbout ''/404'')) inListOrder (JBool True) None JUndefined
       JUndefined
     = (Inr (),
        [SetNodeEnv ''production'', SetSsrEnv True ''/app'' ''/'', GetPageIds, LoadPageRoutes,
         PrerenderPageCalled ''/pages/index'' [(''routeParams'', JObj [])] ''/'' False False,
         PrerenderPageCalled ''/pages/about'' [(''routeParams'', JObj [])] ''/404'' False False,
         Mkdir ''/app/dist/client'',
         WriteFile ''/app/dist/client/index.html'' ''<html>/</html>'',
         Mkdir ''/app/dist/client/404'',
         WriteFile ''/app/dist/client/404/index.html'' ''<html>/404</html>''])"
proof -
  let ?w = "withPosixPaths demo"
  let ?w' = "withPosixPaths (demoAbout ''/404'')"
  let ?index = "\<lparr>url = ''/'', htmlDocument = ''<html>/</html>'', pageContextSerialized = None,
         doNotCreateExtraDirectory = False\<rparr>"
  let ?mine = "\<lparr>url = ''/404'', htmlDocument = ''<html>mine</html>'', pageContextSerialized = None,
         doNotCreateExtraDirectory = False\<rparr>"
  let ?own = "\<lparr>url = ''/404'', htmlDocument = ''<html>/404</html>'', pageContextSerialized = None,
         doNotCreateExtraDirectory = False\<rparr>"
  let ?fallback = "\<lparr>url = ''/404'', htmlDocument = ''<html>404</html>'',
         pageContextSerialized = None, doNotCreateExtraDirectory = True\<rparr>"
  let ?pm = "\<lparr>version = ''0.1.0'', base = ''/'', doesClientSideRouting = False\<rparr>"
  let ?t0 = "[SetNodeEnv ''production'', SetSsrEnv True ''/app'' ''/'']"
  note worlds = withPosixPaths_def demoAbout_def demo_def
  have r: "renderStatic404Page ?w = Inr (Some ''<html>404</html>'')"
    and r0: "renderStatic404Page (?w\<lparr>renderStatic404Page := Inr None\<rparr>) = Inr None"
    by (simp_all add: worlds)
  have layout: "getFileUrl ?w ''/404'' ''.html'' True = getFileUrl_layout ''/404'' ''.html'' True"
      "getFileUrl ?w ''/404'' ''.html'' False = getFileUrl_layout ''/404'' ''.html'' False"
      "sep ?w = ''/''"
    by (simp_all add: worlds getFileUrl_layout_def)
  have paths: "mkdir ?w p = Inr ()" "writeFile ?w p c = Inr ()"
      "path_join ?w [''/app'', ''dist'', ''client'', rel] = ''/app/dist/client/'' @ rel"
      "dirname ?w ''/app/dist/client/404.html'' = ''/app/dist/client''"
      "dirname ?w ''/app/dist/client/404/index.html'' = ''/app/dist/client/404''"
    for p c rel
    by (simp_all add: worlds)
  from static404Fallback_spec [of ?w "[?index]" "''<html>404</html>''"] r
  have a: "RenderStatic404PageCalled \<in> set (snd (static404Fallback ?w [?index]))"
    and b: "fst (static404Fallback ?w [?index]) = Inr ([?index] @ [?fallback])"
    by simp_all
  from static404Fallback_spec [of "?w\<lparr>renderStatic404Page := Inr None\<rparr>" "[?index]"] r0
  have c: "fst (static404Fallback (?w\<lparr>renderStatic404Page := Inr None\<rparr>) [?index]) = Inr [?index]"
    by simp
  from static404Fallback_spec [of ?w "[?mine]"]
  have d: "static404Fallback ?w [?mine] = (Inr [?mine], [])"
    by simp
  from static404Fallback_spec [of ?w _ "''<html>404</html>''" "''/app''",
      THEN conjunct2, THEN conjunct2, THEN conjunct2, THEN conjunct2, THEN conjunct1] layout
  have e: "writeHtmlDocument ?w ?fallback ''/app''
     = (Inr (), [Mkdir ''/app/dist/client'',
                 WriteFile ''/app/dist/client/404.html'' ''<html>404</html>''])"
    by (simp add: paths)
  from static404Fallback_spec [of ?w _ "''<html>mine</html>''" "''/app''",
      THEN conjunct2, THEN conjunct2, THEN conjunct2, THEN conjunct2, THEN conjunct2,
      THEN conjunct1] layout
  have f: "writeHtmlDocument ?w ?mine ''/app''
     = (Inr (), [Mkdir ''/app/dist/client/404'',
                 WriteFile ''/app/dist/client/404/index.html'' ''<html>mine</html>''])"
    by (simp add: paths)
  have order: "hookOrder inListOrder = (\<lambda>xs. xs)" "urlOrder inListOrder = (\<lambda>xs. xs)"
      "pageOrder inListOrder = (\<lambda>xs. xs)"
    by (simp_all add: inListOrder_def)
  have pages: "nonErrorPages ?w [''/pages/index'', ''/pages/movie'', ''/pages/_error'']
      = [''/pages/index'', ''/pages/movie'']"
    and pages': "nonErrorPages ?w' [''/pages/index'', ''/pages/about'']
      = [''/pages/index'', ''/pages/about'']"
    by (simp_all add: nonErrorPages_def worlds)
  have start: "prerenderSetup ?w (orDefault (JBool True) (JBool False)) (rootOrCwd ?w None)
      (orDefault JUndefined (JBool False)) JUndefined = (Inr ?pm, ?t0)"
    and start': "prerenderSetup ?w' (orDefault (JBool True) (JBool False)) (rootOrCwd ?w' None)
      (orDefault JUndefined (JBool False)) JUndefined = (Inr ?pm, ?t0)"
    by (simp_all add: prerenderSetup_def assertArguments_def assertUsage_def assertWarning_def
        getPluginManifest_def worlds hasProp_def js_in_def object_keys_def
        getProp_def orDefault_def rootOrCwd_def run_defs)
  have root: "rootOrCwd ?w None = ''/app''" "rootOrCwd ?w' None = ''/app''"
    by (simp_all add: rootOrCwd_def worlds)
  have ids: "getPageIds ?w = Inr [''/pages/index'', ''/pages/movie'', ''/pages/_error'']"
    and ids': "getPageIds ?w' = Inr [''/pages/index'', ''/pages/about'']"
    by (simp_all add: worlds)
  have routes: "loadPageRoutes ?w = Inr (\<lambda>pageId. if pageId = ''/pages/movie''
                                        then Some (RouteString ''/movie/:id'') else None)"
    and routes': "loadPageRoutes ?w' = Inr (\<lambda>pageId. if pageId = ''/pages/about''
                                        then Some (RouteString ''/404'') else None)"
    by (simp_all add: worlds)
  have hooks: "collectPrerenderData ?w (hookOrder inListOrder
       (nonErrorPages ?w [''/pages/index'', ''/pages/movie'', ''/pages/_error''])) = (Inr [], [])"
    unfolding pages order
    by (simp add: collectPrerenderData_def prerenderHookTask_def worlds run_defs)
  have hooks': "collectPrerenderData ?w' (hookOrder inListOrder
       (nonErrorPages ?w' [''/pages/index'', ''/pages/about''])) = (Inr [], [])"
    unfolding pages' order
    by (simp add: collectPrerenderData_def prerenderHookTask_def worlds run_defs)
  have render: "renderPrerenderData ?w
       (nonErrorPages ?w [''/pages/index'', ''/pages/movie'', ''/pages/_error''])
       (doesClientSideRouting ?pm) (urlOrder inListOrder []) = (Inr ([], []), [])"
    and render': "renderPrerenderData ?w'
       (nonErrorPages ?w' [''/pages/index'', ''/pages/about''])
       (doesClientSideRouting ?pm) (urlOrder inListOrder []) = (Inr ([], []), [])"
    by (simp_all add: renderPrerenderData_def inListOrder_def succeed_def)
  have stage: "renderStaticRoutes ?w (pageOrder inListOrder)
       (truthy (orDefault (JBool True) (JBool False)))
       (nonErrorPages ?w [''/pages/index'', ''/pages/movie'', ''/pages/_error''])
       (\<lambda>pageId. if pageId = ''/pages/movie'' then Some (RouteString ''/movie/:id'') else None)
       (doesClientSideRouting ?pm) (snd ([], [])) (fst ([], []))
     = (Inr [?index],
        [PrerenderPageCalled ''/pages/index'' [(''routeParams'', JObj [])] ''/'' False False])"
    unfolding pages order
    by (simp add: renderStaticRoutes_def staticRouteTask_def staticUrl_def assert_def
        assertWarning_def startsWith_def orDefault_def worlds run_defs)
  have stage': "renderStaticRoutes ?w' (pageOrder inListOrder)
       (truthy (orDefault (JBool True) (JBool False)))
       (nonErrorPages ?w' [''/pages/index'', ''/pages/about''])
       (\<lambda>pageId. if pageId = ''/pages/about'' then Some (RouteString ''/404'') else None)
       (doesClientSideRouting ?pm) (snd ([], [])) (fst ([], []))
     = (Inr [?index, ?own],
        [PrerenderPageCalled ''/pages/index'' [(''routeParams'', JObj [])] ''/'' False False,
         PrerenderPageCalled ''/pages/about'' [(''routeParams'', JObj [])] ''/404'' False False])"
    unfolding pages' order
    by (simp add: renderStaticRoutes_def staticRouteTask_def staticUrl_def assert_def
        assertWarning_def startsWith_def orDefault_def worlds run_defs)
  have writes: "writeHtmlDocuments ?w ''/app'' [?index]
     = (Inr (), [Mkdir ''/app/dist/client'',
                 WriteFile ''/app/dist/client/index.html'' ''<html>/</html>''])"
    by (simp add: writeHtmlDocuments_def writeHtmlDocument_def writeJobs_def writeTo_def
        splitJoin_def assert_def startsWith_def worlds run_defs)
  have writes': "writeHtmlDocuments ?w' ''/app'' [?index, ?own]
     = (Inr (), [Mkdir ''/app/dist/client'',
                 WriteFile ''/app/dist/client/index.html'' ''<html>/</html>'',
                 Mkdir ''/app/dist/client/404'',
                 WriteFile ''/app/dist/client/404/index.html'' ''<html>/404</html>''])"
    by (simp add: writeHtmlDocuments_def writeHtmlDocument_def writeJobs_def writeTo_def
        splitJoin_def assert_def startsWith_def worlds run_defs)
  note run = static404Fallback_spec [where html = "''<html>404</html>''"
      and sched = inListOrder and partial_option = "JBool True" and root_option = None
      and clientRouter_option = JUndefined and base_option = JUndefined,
      THEN conjunct2, THEN conjunct2, THEN conjunct2, THEN conjunct2, THEN conjunct2,
      THEN conjunct2, rule_format]
  from run [of ?w, OF conjI [OF start conjI [OF ids conjI [OF routes conjI [OF hooks
      conjI [OF render stage]]]]], THEN conjunct2, rule_format, of "[Mkdir ''/app/dist/client'',
                 WriteFile ''/app/dist/client/index.html'' ''<html>/</html>'']"]
    r writes
  have g: "prerender ?w inListOrder (JBool True) None JUndefined JUndefined
     = (Inr (),
        [SetNodeEnv ''production'', SetSsrEnv True ''/app'' ''/'', GetPageIds, LoadPageRoutes,
         PrerenderPageCalled ''/pages/index'' [(''routeParams'', JObj [])] ''/'' False False,
         RenderStatic404PageCalled,
         Mkdir ''/app/dist/client'',
         WriteFile ''/app/dist/client/index.html'' ''<html>/</html>'',
         Mkdir ''/app/dist/client'',
         WriteFile ''/app/dist/client/404.html'' ''<html>404</html>''])"
    unfolding root e by simp
  from run [of ?w', OF conjI [OF start' conjI [OF ids' conjI [OF routes' conjI [OF hooks'
      conjI [OF render' stage']]]]], THEN conjunct1]
  have h: "prerender ?w' inListOrder (JBool True) None JUndefined JUndefined
     = (Inr (),
        [SetNodeEnv ''production'', SetSsrEnv True ''/app'' ''/'', GetPageIds, LoadPageRoutes,
         PrerenderPageCalled ''/pages/index'' [(''routeParams'', JObj [])] ''/'' False False,
         PrerenderPageCalled ''/pages/about'' [(''routeParams'', JObj [])] ''/404'' False False,
         Mkdir ''/app/dist/client'',
         WriteFile ''/app/dist/client/index.html'' ''<html>/</html>'',
         Mkdir ''/app/dist/client/404'',
         WriteFile ''/app/dist/client/404/index.html'' ''<html>/404</html>''])"
    unfolding root writes' by simp
  from a b c d e f g h show ?thesis by simp
qed

section \<open>One document at a time\<close>

lemma completedBefore_mono:
  "completedBefore docs h j \<Longrightarrow> set h \<subseteq> set h' \<Longrightarrow> completedBefore docs h' j"
  by (auto simp: completedBefore_def)

lemma writesInOrder_append_other:
  assumes "writesInOrder docs h" and "\<And>j ext. ev \<noteq> Began j ext"
  shows "writesInOrder docs (h @ [ev])"
  unfolding writesInOrder_def
proof (intro allI impI)
  fix b assume b: "b < length (h @ [ev])"
  show "case (h @ [ev]) ! b of
          Began j ext \<Rightarrow> j < length docs \<and> completedBefore docs (take b (h @ [ev])) j
        | _ \<Rightarrow> True"
  proof (cases "b < length h")
    case True
    with assms(1) show ?thesis
      by (auto simp: writesInOrder_def nth_append split: wevent.splits)
  next
    case False
    with b have "(h @ [ev]) ! b = ev" by (simp add: nth_append)
    with assms(2) show ?thesis by (cases ev) auto
  qed
qed

lemma writesInOrder_append_began:
  assumes "writesInOrder docs h" and "n < length docs" and "completedBefore docs h n"
  shows "writesInOrder docs (h @ map (\<lambda>job. Began n (fst job)) jobs)"
  unfolding writesInOrder_def
proof (intro allI impI)
  let ?h' = "h @ map (\<lambda>job. Began n (fst job)) jobs"
  fix b assume b: "b < length ?h'"
  show "case ?h' ! b of
          Began j ext \<Rightarrow> j < length docs \<and> completedBefore docs (take b ?h') j
        | _ \<Rightarrow> True"
  proof (cases "b < length h")
    case True
    with assms(1) show ?thesis
      by (auto simp: writesInOrder_def nth_append split: wevent.splits)
  next
    case False
    with b have ev: "?h' ! b = Began n (fst (jobs ! (b - length h)))"
      by (simp add: nth_append)
    from False have "set h \<subseteq> set (take b ?h')" by auto
    with assms(3) have "completedBefore docs (take b ?h') n"
      by (rule completedBefore_mono)
    with ev assms(2) show ?thesis by simp
  qed
qed

lemma winv_start: "winv docs wstart"
  by (simp add: winv_def wstart_def writesInOrder_def)

lemma winvI:
  assumes "next_doc s \<le> length docs"
    and "\<And>j. j \<in> set (in_flight s) \<Longrightarrow> Suc (fst j) = next_doc s"
    and "\<And>i job. \<not> aborted s \<Longrightarrow> i < next_doc s \<Longrightarrow> job \<in> set (writeJobs (docs ! i)) \<Longrightarrow>
           Ended i (fst job) \<in> set (history s) \<or> (\<exists>a. (i, fst job, a) \<in> set (in_flight s))"
    and "writesInOrder docs (history s)"
  shows "winv docs s"
  using assms unfolding winv_def by blast

lemma winv_next: "winv docs s \<Longrightarrow> next_doc s \<le> length docs"
  by (simp add: winv_def)

lemma winv_flight: "winv docs s \<Longrightarrow> j \<in> set (in_flight s) \<Longrightarrow> Suc (fst j) = next_doc s"
  by (simp add: winv_def)

lemma winv_jobs:
  "winv docs s \<Longrightarrow> \<not> aborted s \<Longrightarrow> i < next_doc s \<Longrightarrow> job \<in> set (writeJobs (docs ! i)) \<Longrightarrow>
     Ended i (fst job) \<in> set (history s) \<or> (\<exists>a. (i, fst job, a) \<in> set (in_flight s))"
  unfolding winv_def by blast

lemma winv_order: "winv docs s \<Longrightarrow> writesInOrder docs (history s)"
  by (simp add: winv_def)

lemma advance_fst:
  "fst (if j = (i, ext, AwaitMkdir) then (i, ext, AwaitWriteFile) else j) = fst (j :: job)"
  by auto

lemma advance_flight:
  assumes "j \<in> set (map (\<lambda>j. if j = (i, ext, AwaitMkdir)
                             then (i, ext, AwaitWriteFile) else j) js)"
  shows "\<exists>j0 \<in> set js. fst j0 = fst j"
  using assms by (induction js) (auto split: if_splits)

lemma advance_keeps:
  assumes "(i', e, a) \<in> set js"
  shows "\<exists>a'. (i', e, a') \<in> set (map (\<lambda>j. if j = (i, ext, AwaitMkdir)
                                           then (i, ext, AwaitWriteFile) else j) js)"
proof (cases "(i', e, a) = (i, ext, AwaitMkdir)")
  case True
  with assms have "(i', e, AwaitWriteFile) \<in> set (map (\<lambda>j. if j = (i, ext, AwaitMkdir)
                                           then (i, ext, AwaitWriteFile) else j) js)"
    by force
  then show ?thesis ..
next
  case False
  with assms have "(i', e, a) \<in> set (map (\<lambda>j. if j = (i, ext, AwaitMkdir)
                                           then (i, ext, AwaitWriteFile) else j) js)"
    by force
  then show ?thesis ..
qed

lemma winv_step:
  assumes inv: "winv docs s" and st: "wstep docs s s'"
  shows "winv docs s'"
  using st
proof cases
  case next_document
  let ?n = "next_doc s"
  from next_document(3,4) have fin: "completedBefore docs (history s) ?n"
    unfolding completedBefore_def using winv_jobs [OF inv] by auto
  show ?thesis
  proof (rule winvI)
    show "next_doc s' \<le> length docs"
      using next_document(2) unfolding next_document(1) by simp
    show "Suc (fst j) = next_doc s'" if "j \<in> set (in_flight s')" for j
      using that unfolding next_document(1) by auto
    show "Ended i (fst job) \<in> set (history s') \<or> (\<exists>a. (i, fst job, a) \<in> set (in_flight s'))"
      if "i < next_doc s'" "job \<in> set (writeJobs (docs ! i))" for i job
    proof (cases "i < ?n")
      case True
      with fin that(2) have "Ended i (fst job) \<in> set (history s)"
        by (simp add: completedBefore_def)
      then show ?thesis unfolding next_document(1) by simp
    next
      case False
      with that(1) have "i = ?n" unfolding next_document(1) by simp
      with that(2) have "(i, fst job, AwaitMkdir) \<in> set (in_flight s')"
        unfolding next_document(1) by simp
      then show ?thesis by blast
    qed
    show "writesInOrder docs (history s')"
      unfolding next_document(1)
      using writesInOrder_append_began [OF winv_order [OF inv] next_document(2) fin] by simp
  qed
next
  case assert_failed
  show ?thesis
  proof (rule winvI)
    show "next_doc s' \<le> length docs" using winv_next [OF inv] by (simp add: assert_failed(1))
    show "Suc (fst j) = next_doc s'" if "j \<in> set (in_flight s')" for j
      using that winv_flight [OF inv, of j] by (simp add: assert_failed(1))
    show "Ended i (fst job) \<in> set (history s') \<or> (\<exists>a. (i, fst job, a) \<in> set (in_flight s'))"
      if "\<not> aborted s'" for i job
      using that by (simp add: assert_failed(1))
    show "writesInOrder docs (history s')" using winv_order [OF inv] by (simp add: assert_failed(1))
  qed
next
  case (mkdir_done i ext)
  show ?thesis
  proof (rule winvI)
    show "next_doc s' \<le> length docs" using winv_next [OF inv] by (simp add: mkdir_done(1))
    show "Suc (fst j) = next_doc s'" if "j \<in> set (in_flight s')" for j
    proof -
      from that have "\<exists>j0 \<in> set (in_flight s). fst j0 = fst j"
        unfolding mkdir_done(1) by (simp add: advance_flight)
      with winv_flight [OF inv] show ?thesis
        by (auto simp: mkdir_done(1))
    qed
    show "Ended i' (fst job) \<in> set (history s') \<or> (\<exists>a. (i', fst job, a) \<in> set (in_flight s'))"
      if "\<not> aborted s'" "i' < next_doc s'" "job \<in> set (writeJobs (docs ! i'))" for i' job
    proof -
      from that have "\<not> aborted s" "i' < next_doc s" by (simp_all add: mkdir_done(1))
      from winv_jobs [OF inv this that(3)] show ?thesis
      proof
        assume "Ended i' (fst job) \<in> set (history s)"
        then show ?thesis by (simp add: mkdir_done(1))
      next
        assume "\<exists>a. (i', fst job, a) \<in> set (in_flight s)"
        then obtain a where "(i', fst job, a) \<in> set (in_flight s)" ..
        from advance_keeps [OF this, of i ext] show ?thesis by (simp add: mkdir_done(1))
      qed
    qed
    show "writesInOrder docs (history s')" using winv_order [OF inv] by (simp add: mkdir_done(1))
  qed
next
  case (writeFile_done i ext)
  show ?thesis
  proof (rule winvI)
    show "next_doc s' \<le> length docs" using winv_next [OF inv] by (simp add: writeFile_done(1))
    show "Suc (fst j) = next_doc s'" if "j \<in> set (in_flight s')" for j
      using that winv_flight [OF inv, of j] by (simp add: writeFile_done(1))
    show "Ended i' (fst job) \<in> set (history s') \<or> (\<exists>a. (i', fst job, a) \<in> set (in_flight s'))"
      if "\<not> aborted s'" "i' < next_doc s'" "job \<in> set (writeJobs (docs ! i'))" for i' job
    proof -
      from that have "\<not> aborted s" "i' < next_doc s" by (simp_all add: writeFile_done(1))
      from winv_jobs [OF inv this that(3)] show ?thesis
      proof
        assume "Ended i' (fst job) \<in> set (history s)"
        then show ?thesis by (simp add: writeFile_done(1))
      next
        assume "\<exists>a. (i', fst job, a) \<in> set (in_flight s)"
        then obtain a where a: "(i', fst job, a) \<in> set (in_flight s)" ..
        show ?thesis
        proof (cases "(i', fst job, a) = (i, ext, AwaitWriteFile)")
          case True
          then show ?thesis by (simp add: writeFile_done(1))
        next
          case False
          with a have "(i', fst job, a) \<in> set (in_flight s')" by (simp add: writeFile_done(1))
          then show ?thesis by blast
        qed
      qed
    qed
    show "writesInOrder docs (history s')"
      unfolding writeFile_done(1)
      using writesInOrder_append_other [OF winv_order [OF inv], of "Ended i ext"] by simp
  qed
next
  case (job_failed i ext a)
  show ?thesis
  proof (rule winvI)
    show "next_doc s' \<le> length docs" using winv_next [OF inv] by (simp add: job_failed(1))
    show "Suc (fst j) = next_doc s'" if "j \<in> set (in_flight s')" for j
      using that winv_flight [OF inv, of j] by (simp add: job_failed(1))
    show "Ended i' (fst job) \<in> set (history s') \<or> (\<exists>a. (i', fst job, a) \<in> set (in_flight s'))"
      if "\<not> aborted s'" for i' job
      using that by (simp add: job_failed(1))
    show "writesInOrder docs (history s')"
      unfolding job_failed(1)
      using writesInOrder_append_other [OF winv_order [OF inv], of "Failed i ext"] by simp
  qed
qed

lemma reachable_winv: "reachable docs s \<Longrightarrow> winv docs s"
  by (induction rule: reachable.induct) (auto intro: winv_start winv_step)


lemma writesInOrder_split:
  assumes "writesInOrder docs h" and "h = h1 @ Began j ext # h2"
  shows "j < length docs \<and> completedBefore docs h1 j"
proof -
  from assms(2) have "length h1 < length h" "h ! length h1 = Began j ext" "take (length h1) h = h1"
    by simp_all
  with assms(1) [unfolded writesInOrder_def, rule_format, of "length h1"] show ?thesis
    by simp
qed

text \<open>
  C8. In every state that the write loop can reach: the jobs in flight all belong to
  one document; in the history, when a job of a document begins, every job of every
  earlier document has ended before; and when the loop is about to start a document
  that has a serialized page context, it reaches a state where the two jobs of that
  document are in flight together.
\<close>

theorem writes_one_document_at_a_time:
  assumes "reachable htmlDocuments s"
  shows "(\<forall>j1 \<in> set (in_flight s). \<forall>j2 \<in> set (in_flight s). fst j1 = fst j2)
       \<and> (\<forall>h1 j ext h2 i job.
             history s = h1 @ Began j ext # h2 \<and> i < j \<and>
             job \<in> set (writeJobs (htmlDocuments ! i)) \<longrightarrow>
               j < length htmlDocuments \<and> Ended i (fst job) \<in> set h1)
       \<and> (in_flight s = [] \<and> \<not> aborted s \<and> next_doc s < length htmlDocuments \<and>
          startsWith (url (htmlDocuments ! next_doc s)) ''/'' \<and>
          pageContextSerialized (htmlDocuments ! next_doc s) = Some serialized \<longrightarrow>
            (\<exists>s'. reachable htmlDocuments s' \<and>
                  in_flight s' = [(next_doc s, ''.html'', AwaitMkdir),
                                  (next_doc s, ''.pageContext.json'', AwaitMkdir)]))"
proof -
  from assms have inv: "winv htmlDocuments s" by (rule reachable_winv)
  have a: "fst j1 = fst j2" if "j1 \<in> set (in_flight s)" "j2 \<in> set (in_flight s)" for j1 j2
    using winv_flight [OF inv that(1)] winv_flight [OF inv that(2)] by simp
  have b: "j < length htmlDocuments \<and> Ended i (fst job) \<in> set h1"
    if "history s = h1 @ Began j ext # h2" "i < j" "job \<in> set (writeJobs (htmlDocuments ! i))"
    for h1 j ext h2 i job
    using writesInOrder_split [OF winv_order [OF inv] that(1)] that(2,3)
    by (simp add: completedBefore_def)
  have c: "\<exists>s'. reachable htmlDocuments s' \<and>
                  in_flight s' = [(next_doc s, ''.html'', AwaitMkdir),
                                  (next_doc s, ''.pageContext.json'', AwaitMkdir)]"
    if "in_flight s = []" "\<not> aborted s" "next_doc s < length htmlDocuments"
      "startsWith (url (htmlDocuments ! next_doc s)) ''/''"
      "pageContextSerialized (htmlDocuments ! next_doc s) = Some serialized"
  proof -
    let ?s' = "\<lparr>next_doc = Suc (next_doc s),
        in_flight = map (\<lambda>job. (next_doc s, fst job, AwaitMkdir))
                      (writeJobs (htmlDocuments ! next_doc s)),
        aborted = False,
        history = history s @ map (\<lambda>job. Began (next_doc s) (fst job))
                                  (writeJobs (htmlDocuments ! next_doc s))\<rparr>"
    have r: "reachable htmlDocuments ?s'"
      by (rule reachable.after_step [OF assms wstep.next_document [OF that(3) that(1) that(2) that(4)]])
    have eq: "map (\<lambda>job. (next_doc s, fst job, AwaitMkdir))
                      (writeJobs (htmlDocuments ! next_doc s)) =
        [(next_doc s, ''.html'', AwaitMkdir), (next_doc s, ''.pageContext.json'', AwaitMkdir)]"
      using that(5) by (simp add: writeJobs_def)
    show ?thesis
      using r eq by (intro exI [of _ ?s']) simp
  qed
  from a b c show ?thesis by blast
qed

theorem writes_one_document_at_a_time_witness:
  "reachable
     [\<lparr>url = ''/movie/1'', htmlDocument = ''<html>1</html>'', pageContextSerialized = Some ''{}'',
       doNotCreateExtraDirectory = False\<rparr>,
      \<lparr>url = ''/404'', htmlDocument = ''<html>404</html>'', pageContextSerialized = None,
       doNotCreateExtraDirectory = True\<rparr>]
     \<lparr>next_doc = 2, in_flight = [(1, ''.html'', AwaitMkdir)], aborted = False,
      history = [Began 0 ''.html'', Began 0 ''.pageContext.json'', Ended 0 ''.pageContext.json'',
                 Ended 0 ''.html'', Began 1 ''.html'']\<rparr>
   \<and> Ended 0 ''.html'' \<in> set [Began 0 ''.html'', Began 0 ''.pageContext.json'',
                                 Ended 0 ''.pageContext.json'', Ended 0 ''.html'']
   \<and> Ended 0 ''.pageContext.json'' \<in> set [Began 0 ''.html'', Began 0 ''.pageContext.json'',
                                 Ended 0 ''.pageContext.json'', Ended 0 ''.html'']"
proof -
  let ?docs = "[\<lparr>url = ''/movie/1'', htmlDocument = ''<html>1</html>'',
                 pageContextSerialized = Some ''{}'', doNotCreateExtraDirectory = False\<rparr>,
                \<lparr>url = ''/404'', htmlDocument = ''<html>404</html>'', pageContextSerialized = None,
                 doNotCreateExtraDirectory = True\<rparr>]"
  let ?h2 = "[Began 0 ''.html'', Began 0 ''.pageContext.json'']"
  let ?h3 = "[Began 0 ''.html'', Began 0 ''.pageContext.json'', Ended 0 ''.pageContext.json'']"
  let ?h4 = "[Began 0 ''.html'', Began 0 ''.pageContext.json'', Ended 0 ''.pageContext.json'',
              Ended 0 ''.html'']"
  let ?s1 = "\<lparr>next_doc = 1, in_flight = [(0, ''.html'', AwaitMkdir), (0, ''.pageContext.json'', AwaitMkdir)],
             aborted = False, history = ?h2\<rparr>"
  let ?s2 = "\<lparr>next_doc = 1, in_flight = [(0, ''.html'', AwaitMkdir), (0, ''.pageContext.json'', AwaitWriteFile)],
             aborted = False, history = ?h2\<rparr>"
  let ?s3 = "\<lparr>next_doc = 1, in_flight = [(0, ''.html'', AwaitMkdir)], aborted = False, history = ?h3\<rparr>"
  let ?s4 = "\<lparr>next_doc = 1, in_flight = [(0, ''.html'', AwaitWriteFile)], aborted = False, history = ?h3\<rparr>"
  let ?s5 = "\<lparr>next_doc = 1, in_flight = [], aborted = False, history = ?h4\<rparr>"
  let ?s6 = "\<lparr>next_doc = 2, in_flight = [(1, ''.html'', AwaitMkdir)], aborted = False,
             history = ?h4 @ [Began 1 ''.html'']\<rparr>"
  have 1: "wstep ?docs wstart ?s1"
    using wstep.next_document [of wstart ?docs]
    by (simp add: wstart_def writeJobs_def startsWith_def)
  have 2: "wstep ?docs ?s1 ?s2"
    using wstep.mkdir_done [of 0 "''.pageContext.json''" ?s1 ?docs] by simp
  have 3: "wstep ?docs ?s2 ?s3"
    using wstep.writeFile_done [of 0 "''.pageContext.json''" ?s2 ?docs] by simp
  have 4: "wstep ?docs ?s3 ?s4"
    using wstep.mkdir_done [of 0 "''.html''" ?s3 ?docs] by simp
  have 5: "wstep ?docs ?s4 ?s5"
    using wstep.writeFile_done [of 0 "''.html''" ?s4 ?docs] by simp
  have 6: "wstep ?docs ?s5 ?s6"
    using wstep.next_document [of ?s5 ?docs]
    by (simp add: writeJobs_def startsWith_def numeral_2_eq_2)
  have r1: "reachable ?docs ?s1" by (rule reachable.after_step [OF reachable.at_start 1])
  have r2: "reachable ?docs ?s2" by (rule reachable.after_step [OF r1 2])
  have r3: "reachable ?docs ?s3" by (rule reachable.after_step [OF r2 3])
  have r4: "reachable ?docs ?s4" by (rule reachable.after_step [OF r3 4])
  have r5: "reachable ?docs ?s5" by (rule reachable.after_step [OF r4 5])
  have r: "reachable ?docs ?s6" by (rule reachable.after_step [OF r5 6])
  from writes_one_document_at_a_time [OF r]
  have "\<forall>h1 j ext h2 i job.
             history ?s6 = h1 @ Began j ext # h2 \<and> i < j \<and> job \<in> set (writeJobs (?docs ! i)) \<longrightarrow>
               j < length ?docs \<and> Ended i (fst job) \<in> set h1"
    by blast
  from this [rule_format, of ?h4 1 "''.html''" "[]" 0 "(''.html'', ''<html>1</html>'')"]
    this [rule_format, of ?h4 1 "''.html''" "[]" 0 "(''.pageContext.json'', ''{}'')"]
  have "Ended 0 ''.html'' \<in> set ?h4" "Ended 0 ''.pageContext.json'' \<in> set ?h4"
    by (simp_all add: writeJobs_def)
  with r show ?thesis by simp
qed


end
